theory Spec2Isabelle
  imports Complex_Main "HOL-Library.Multiset" "HOL-Library.Sublist" "HOL-Library.Product_Lexorder"
begin

section \<open>Decimal values under the default context\<close>

text \<open>
  The program (\<^verbatim>\<open>app.py\<close>) keeps every monetary value in Python's \<^verbatim>\<open>Decimal\<close> and never
  changes the arithmetic context, so every operation runs under the default one:
  28 significant digits, \<^verbatim>\<open>ROUND_HALF_EVEN\<close>, \<^verbatim>\<open>Emax = 999999\<close>, \<^verbatim>\<open>Emin = -999999\<close>, with
  \<^verbatim>\<open>InvalidOperation\<close>, \<^verbatim>\<open>DivisionByZero\<close> and \<^verbatim>\<open>Overflow\<close> raised as exceptions.

  pydantic admits only finite decimals. A finite \<^verbatim>\<open>Decimal\<close> is a sign, a coefficient and
  an exponent; it is modelled by the rational number it denotes, \<^typ>\<open>rat\<close>. That loses
  nothing here: a \<^verbatim>\<open>Decimal\<close> is built from its literal without rounding, comparisons are
  exact, and the value of the result of \<^verbatim>\<open>+\<close>, \<^verbatim>\<open>-\<close>, \<^verbatim>\<open>*\<close>, \<^verbatim>\<open>%\<close> and \<^verbatim>\<open>quantize\<close>, and
  whether they raise, depend only on the values of the operands. The arithmetic computes
  the exact result and then fits it to the context (\<^verbatim>\<open>Decimal._fix\<close>): that step is
  \<open>ctx_fix\<close> below, and an operation that raises returns \<open>None\<close>.
\<close>

type_synonym decimal = rat

datatype error = ValueError | RuntimeError

text \<open>The number of decimal digits of a coefficient, \<^verbatim>\<open>len(self._int)\<close>.\<close>

fun digits10 :: "nat \<Rightarrow> nat" where
  "digits10 n = (if n < 10 then 1 else Suc (digits10 (n div 10)))"

text \<open>
  \<^verbatim>\<open>Decimal.adjusted()\<close>, the exponent of the leading digit of a value that is not zero:
  \<open>10 powi adjusted x \<le> \<bar>x\<bar> < 10 powi (adjusted x + 1)\<close>. It is computed from the digits of
  the numerator and of the denominator, which leave two candidates.
\<close>

definition adjusted :: "rat \<Rightarrow> int" where
  "adjusted x =
     (case quotient_of \<bar>x\<bar> of
        (p, q) \<Rightarrow>
          (let k = int (digits10 (nat p)) - int (digits10 (nat q))
           in if 10 powi k \<le> \<bar>x\<bar> then k else k - 1))"

text \<open>Rounding to an integer, a half to the even neighbour (\<^verbatim>\<open>ROUND_HALF_EVEN\<close>).\<close>

definition round_half_even :: "rat \<Rightarrow> int" where
  "round_half_even x =
     (let n = \<lfloor>x\<rfloor>; r = x - of_int n
      in if r < 1 / 2 then n else if 1 / 2 < r then n + 1 else if even n then n else n + 1)"

text \<open>
  \<^verbatim>\<open>Decimal._fix\<close>: an exact result with more than 28 significant digits is rounded to 28
  (to the exponent \<open>adjusted x - 27\<close>), a result below \<^verbatim>\<open>Emin\<close> is rounded to the exponent
  \<^verbatim>\<open>Etiny = -1000026\<close>, and a result whose leading digit is above \<^verbatim>\<open>Emax\<close>, before or
  after the rounding, raises \<^verbatim>\<open>Overflow\<close>.
\<close>

definition ctx_fix :: "rat \<Rightarrow> decimal option" where
  "ctx_fix x =
     (if x = 0 then Some 0
      else if 999999 < adjusted x then None
      else
        (let e = max (adjusted x - 27) (- 1000026);
             r = of_int (round_half_even (x / 10 powi e)) * 10 powi e
         in if r \<noteq> 0 \<and> 999999 < adjusted r then None else Some r))"

definition dec_add :: "decimal \<Rightarrow> decimal \<Rightarrow> decimal option" where
  "dec_add x y = ctx_fix (x + y)"

definition dec_sub :: "decimal \<Rightarrow> decimal \<Rightarrow> decimal option" where
  "dec_sub x y = ctx_fix (x - y)"

definition dec_mul :: "decimal \<Rightarrow> decimal \<Rightarrow> decimal option" where
  "dec_mul x y = ctx_fix (x * y)"

text \<open>
  \<^verbatim>\<open>x.quantize(Decimal('0.01'), rounding=ROUND_HALF_UP)\<close>: the operand itself (not a
  rounded copy) is rounded to two fraction digits, a half away from zero, and the result
  must not need more than 28 digits: a coefficient of \<open>10^28\<close> or more raises
  \<^verbatim>\<open>InvalidOperation\<close>.
\<close>

definition quantize2 :: "decimal \<Rightarrow> decimal option" where
  "quantize2 x =
     (let n = \<lfloor>\<bar>x\<bar> * 100 + 1 / 2\<rfloor>
      in if 10 ^ 28 \<le> n then None
         else Some (if 0 \<le> x then of_int n / 100 else - (of_int n / 100)))"

text \<open>
  \<^verbatim>\<open>Decimal.__mod__\<close>: the remainder of the division truncated towards zero, so the result
  has the sign of the dividend (unlike \<^verbatim>\<open>%\<close> on Python's ints), fitted to the context. A
  zero divisor raises \<^verbatim>\<open>InvalidOperation\<close>, and so does an integer quotient of more than 28
  digits (\<^verbatim>\<open>DivisionImpossible\<close>).
\<close>

definition truncate_int :: "rat \<Rightarrow> int" where
  "truncate_int x = (if 0 \<le> x then \<lfloor>x\<rfloor> else \<lceil>x\<rceil>)"

definition decimal_mod :: "decimal \<Rightarrow> decimal \<Rightarrow> decimal option" where
  "decimal_mod x y =
     (if y = 0 then None
      else
        (let q = truncate_int (x / y)
         in if 10 ^ 28 \<le> \<bar>q\<bar> then None else ctx_fix (x - y * of_int q)))"

section \<open>The tax bracket table\<close>

definition THRESHOLDS :: "decimal list" where
  "THRESHOLDS = [700000, 1000000, 1200000, 1500000]"

definition PREV_THRESHOLDS :: "decimal list" where
  "PREV_THRESHOLDS = [0, 700000, 1000000, 1200000, 1500000]"

definition BASE_TAX :: "decimal list" where
  "BASE_TAX = [0, 0, 30000, 60000, 120000]"

definition RATES :: "decimal list" where
  "RATES = [0, 10 / 100, 15 / 100, 20 / 100, 30 / 100]"

text \<open>
  \<^verbatim>\<open>bisect.bisect_right(a, x)\<close> of the standard library, with \<^verbatim>\<open>lo = 0\<close> and
  \<^verbatim>\<open>hi = len(a)\<close>:
  \<^verbatim>\<open>while lo < hi: mid = (lo + hi) // 2; if x < a[mid]: hi = mid else: lo = mid + 1\<close>.
  The loop only reads \<^verbatim>\<open>a[mid]\<close> with \<^verbatim>\<open>lo <= mid < hi <= len(a)\<close>.
\<close>

function bisect_loop :: "'a::linorder list \<Rightarrow> 'a \<Rightarrow> nat \<Rightarrow> nat \<Rightarrow> nat" where
  "bisect_loop a x lo hi =
     (if lo < hi then
        (let mid = (lo + hi) div 2
         in if x < a ! mid then bisect_loop a x lo mid else bisect_loop a x (mid + 1) hi)
      else lo)"
  by pat_completeness auto
termination
  by (relation "measure (\<lambda>(a, x, lo, hi). hi - lo)") auto

definition bisect_right :: "'a::linorder list \<Rightarrow> 'a \<Rightarrow> nat" where
  "bisect_right a x = bisect_loop a x 0 (length a)"

text \<open>
  \<^verbatim>\<open>calculate_tax\<close>:
  \<^verbatim>\<open>tax = BASE_TAX[idx] + (yearly_income - PREV_THRESHOLDS[idx]) * RATES[idx]\<close>, each
  operation under the context, then \<^verbatim>\<open>quantize\<close>. Whatever is raised (an index outside a
  table, \<^verbatim>\<open>Overflow\<close>, \<^verbatim>\<open>InvalidOperation\<close>) leaves as \<^verbatim>\<open>RuntimeError\<close>. The \<^verbatim>\<open>lru_cache\<close>
  around the function memoizes a deterministic function and does not change what it
  returns.
\<close>

definition calculate_tax :: "decimal \<Rightarrow> error + decimal" where
  "calculate_tax yearly_income =
     (let idx = bisect_right THRESHOLDS yearly_income
      in if idx < length BASE_TAX \<and> idx < length PREV_THRESHOLDS \<and> idx < length RATES
         then
           (case dec_sub yearly_income (PREV_THRESHOLDS ! idx) of
              None \<Rightarrow> Inl RuntimeError
            | Some excess \<Rightarrow>
                (case dec_mul excess (RATES ! idx) of
                   None \<Rightarrow> Inl RuntimeError
                 | Some marginal \<Rightarrow>
                     (case dec_add (BASE_TAX ! idx) marginal of
                        None \<Rightarrow> Inl RuntimeError
                      | Some tax \<Rightarrow>
                          (case quantize2 tax of
                             None \<Rightarrow> Inl RuntimeError
                           | Some rounded \<Rightarrow> Inr rounded))))
         else Inl RuntimeError)"

text \<open>
  \<^verbatim>\<open>calculate_remanent\<close>:
  \<^verbatim>\<open>remanent = (hundred - amount % hundred) % hundred\<close>, then \<^verbatim>\<open>quantize\<close>; whatever is
  raised leaves as \<^verbatim>\<open>RuntimeError\<close>.
\<close>

definition calculate_remanent :: "decimal \<Rightarrow> error + decimal" where
  "calculate_remanent amount =
     (let hundred = 100
      in case decimal_mod amount hundred of
           None \<Rightarrow> Inl RuntimeError
         | Some m \<Rightarrow>
             (case dec_sub hundred m of
                None \<Rightarrow> Inl RuntimeError
              | Some complement \<Rightarrow>
                  (case decimal_mod complement hundred of
                     None \<Rightarrow> Inl RuntimeError
                   | Some remanent \<Rightarrow>
                       (case quantize2 remanent of
                          None \<Rightarrow> Inl RuntimeError
                        | Some rounded \<Rightarrow> Inr rounded))))"

section \<open>The request and response models\<close>

text \<open>
  The pydantic models, field by field. \<^verbatim>\<open>ceiling\<close> is written \<open>ceiling_d\<close> (HOL has a
  constant \<open>ceiling\<close>), and the fields \<^verbatim>\<open>start\<close>, \<^verbatim>\<open>end\<close>, \<^verbatim>\<open>fixed\<close>, \<^verbatim>\<open>extra\<close>,
  \<^verbatim>\<open>wage\<close>, \<^verbatim>\<open>transactions\<close>, ... carry the letter of their model (\<open>start_q\<close>,
  \<open>extra_p\<close>, \<open>v_wage\<close>, ...), since the fields of different records need different names
  and the source's tuple variables \<^verbatim>\<open>q_start\<close>, \<^verbatim>\<open>p_extra\<close>, \<^verbatim>\<open>k_start\<close>, ... keep
  theirs.
\<close>

record TransactionOutput =
  date :: string
  amount :: decimal
  ceiling_d :: decimal
  remanent :: decimal
  inkPeriod :: "bool option"
  message :: "string option"

record PeriodQ =
  fixed_q :: decimal
  start_q :: string
  end_q :: string

record PeriodP =
  extra_p :: decimal
  start_p :: string
  end_p :: string

record PeriodK =
  start_k :: string
  end_k :: string

record ValidatorRequest =
  v_wage :: decimal
  v_transactions :: "TransactionOutput list"

record ValidatorResponse =
  valid :: "TransactionOutput list"
  invalid :: "TransactionOutput list"

record FilterRequest =
  f_q :: "PeriodQ list"
  f_p :: "PeriodP list"
  f_k :: "PeriodK list"
  f_wage :: decimal
  f_transactions :: "TransactionOutput list"

record ReturnsRequest =
  r_age :: int
  r_wage :: decimal
  r_inflation :: decimal
  r_q :: "PeriodQ list"
  r_p :: "PeriodP list"
  r_k :: "PeriodK list"
  r_transactions :: "TransactionOutput list"

record SavingsByDate =
  s_start :: string
  s_end :: string
  s_amount :: decimal
  profit :: "decimal option"
  taxBenefit :: "decimal option"

record ReturnsResponse =
  totalTransactionAmount :: decimal
  totalCeiling :: decimal
  savingsByDates :: "SavingsByDate list"

section \<open>Rule resolution\<close>

text \<open>
  \<^verbatim>\<open>parse_date\<close> is \<^verbatim>\<open>datetime.strptime\<close> with one fixed format and raises
  \<^verbatim>\<open>ValueError\<close> on a string that does not match. The functions below take it as the
  parameter \<open>parse_date\<close>, of type \<open>string \<Rightarrow> error + 'd\<close>: the type \<open>'d\<close> of naive
  \<^verbatim>\<open>datetime\<close> values is any linear order, since the program only compares them.

  \<^verbatim>\<open>list.sort(key=..., reverse=True)\<close> is stable: CPython reverses the list, sorts it
  ascending with a stable sort and reverses the result.
\<close>

definition sort_reverse :: "('a \<Rightarrow> 'k::linorder) \<Rightarrow> 'a list \<Rightarrow> 'a list" where
  "sort_reverse key xs = rev (sort_key key (rev xs))"

text \<open>
  \<^verbatim>\<open>process_transaction_rules_fast\<close>. The loop over \<^verbatim>\<open>parsed_p\<close> is \<open>add_extras\<close>:
  \<^verbatim>\<open>current_remanent += p_extra\<close> for each rule that applies, one \<^verbatim>\<open>Decimal\<close> addition
  after the other in the order of the list, each fitted to the context. An addition that
  raises \<^verbatim>\<open>Overflow\<close> ends the loop (\<open>None\<close>), and the \<^verbatim>\<open>except\<close> of the function turns it into
  \<^verbatim>\<open>RuntimeError\<close>. Nothing else in the body raises: \<^verbatim>\<open>applicable_qs[0]\<close> is read only when
  the list is not empty, which the guard of \<open>hd\<close> below repeats.
\<close>

fun add_extras :: "'d::linorder \<Rightarrow> decimal \<Rightarrow> ('d \<times> 'd \<times> decimal) list \<Rightarrow> decimal option" where
  "add_extras tx_date current_remanent [] = Some current_remanent"
| "add_extras tx_date current_remanent ((p_start, p_end, p_extra) # parsed_p) =
     (if p_start \<le> tx_date \<and> tx_date \<le> p_end
      then
        (case dec_add current_remanent p_extra of
           None \<Rightarrow> None
         | Some increased \<Rightarrow> add_extras tx_date increased parsed_p)
      else add_extras tx_date current_remanent parsed_p)"

definition process_transaction_rules_fast ::
  "'d::linorder \<Rightarrow> decimal \<Rightarrow> ('d \<times> 'd \<times> decimal \<times> nat) list \<Rightarrow> ('d \<times> 'd \<times> decimal) list
   \<Rightarrow> error + decimal"
where
  "process_transaction_rules_fast tx_date current_remanent parsed_q parsed_p =
     (let applicable_qs =
            map (\<lambda>(q_start, q_end, q_fixed, q_idx). (q_start, q_idx, q_fixed))
              (filter (\<lambda>(q_start, q_end, q_fixed, q_idx). q_start \<le> tx_date \<and> tx_date \<le> q_end)
                 parsed_q);
          current_remanent =
            (if applicable_qs \<noteq> []
             then snd (snd (hd (sort_reverse (\<lambda>x. (fst x, fst (snd x))) applicable_qs)))
             else current_remanent)
      in case add_extras tx_date current_remanent parsed_p of
           None \<Rightarrow> Inl RuntimeError
         | Some resolved \<Rightarrow> Inr resolved)"

text \<open>
  The three comprehensions that parse the rules once per request; the first error of a
  \<^verbatim>\<open>parse_date\<close> call ends the request. The ordinal of a Q rule is its index from
  \<^verbatim>\<open>enumerate\<close>. \<^verbatim>\<open>calculate_returns\<close> keeps the two strings of a K rule beside its two
  datetimes; \<^verbatim>\<open>filter_transactions\<close> keeps the datetimes only.
\<close>

fun parse_q_rules ::
  "(string \<Rightarrow> error + 'd) \<Rightarrow> (nat \<times> PeriodQ) list \<Rightarrow> error + ('d \<times> 'd \<times> decimal \<times> nat) list"
where
  "parse_q_rules parse_date [] = Inr []"
| "parse_q_rules parse_date ((idx, q) # rest) =
     (case parse_date (start_q q) of
        Inl e \<Rightarrow> Inl e
      | Inr s \<Rightarrow>
          (case parse_date (end_q q) of
             Inl e \<Rightarrow> Inl e
           | Inr en \<Rightarrow>
               (case parse_q_rules parse_date rest of
                  Inl e \<Rightarrow> Inl e
                | Inr parsed \<Rightarrow> Inr ((s, en, fixed_q q, idx) # parsed))))"

fun parse_p_rules ::
  "(string \<Rightarrow> error + 'd) \<Rightarrow> PeriodP list \<Rightarrow> error + ('d \<times> 'd \<times> decimal) list"
where
  "parse_p_rules parse_date [] = Inr []"
| "parse_p_rules parse_date (p # rest) =
     (case parse_date (start_p p) of
        Inl e \<Rightarrow> Inl e
      | Inr s \<Rightarrow>
          (case parse_date (end_p p) of
             Inl e \<Rightarrow> Inl e
           | Inr en \<Rightarrow>
               (case parse_p_rules parse_date rest of
                  Inl e \<Rightarrow> Inl e
                | Inr parsed \<Rightarrow> Inr ((s, en, extra_p p) # parsed))))"

fun parse_k_rules ::
  "(string \<Rightarrow> error + 'd) \<Rightarrow> PeriodK list \<Rightarrow> error + ('d \<times> 'd \<times> string \<times> string) list"
where
  "parse_k_rules parse_date [] = Inr []"
| "parse_k_rules parse_date (k # rest) =
     (case parse_date (start_k k) of
        Inl e \<Rightarrow> Inl e
      | Inr s \<Rightarrow>
          (case parse_date (end_k k) of
             Inl e \<Rightarrow> Inl e
           | Inr en \<Rightarrow>
               (case parse_k_rules parse_date rest of
                  Inl e \<Rightarrow> Inl e
                | Inr parsed \<Rightarrow> Inr ((s, en, start_k k, end_k k) # parsed))))"

section \<open>Validation and filtering\<close>

text \<open>
  \<^verbatim>\<open>validate_transactions\<close>: one pass, with the set \<^verbatim>\<open>seen_dates\<close> of date strings and
  the two lists \<^verbatim>\<open>valid\<close> and \<^verbatim>\<open>invalid\<close> that the loop appends to.
\<close>

fun validate_loop ::
  "string set \<Rightarrow> TransactionOutput list \<Rightarrow> TransactionOutput list \<Rightarrow> TransactionOutput list
   \<Rightarrow> TransactionOutput list \<times> TransactionOutput list"
where
  "validate_loop seen_dates valid_acc invalid_acc [] = (valid_acc, invalid_acc)"
| "validate_loop seen_dates valid_acc invalid_acc (tx # txs) =
     (if amount tx < 0 then
        validate_loop seen_dates valid_acc
          (invalid_acc @ [tx\<lparr>message := Some ''Negative amounts are not allowed''\<rparr>]) txs
      else if date tx \<in> seen_dates then
        validate_loop seen_dates valid_acc
          (invalid_acc @ [tx\<lparr>message := Some ''Duplicate transaction''\<rparr>]) txs
      else
        validate_loop (insert (date tx) seen_dates) (valid_acc @ [tx]) invalid_acc txs)"

definition validate_transactions :: "ValidatorRequest \<Rightarrow> ValidatorResponse" where
  "validate_transactions payload =
     (case validate_loop {} [] [] (v_transactions payload) of
        (valid_acc, invalid_acc) \<Rightarrow> \<lparr>valid = valid_acc, invalid = invalid_acc\<rparr>)"

text \<open>
  \<^verbatim>\<open>filter_transactions\<close>: the same two checks, then \<^verbatim>\<open>parse_date\<close>, the rule
  resolution and the window test for each accepted transaction. The endpoint has no
  \<^verbatim>\<open>try\<close>: a \<^verbatim>\<open>ValueError\<close> of \<^verbatim>\<open>parse_date\<close> and a \<^verbatim>\<open>RuntimeError\<close> of
  \<^verbatim>\<open>process_transaction_rules_fast\<close> leave it as they are.
\<close>

fun filter_loop ::
  "(string \<Rightarrow> error + 'd::linorder) \<Rightarrow> ('d \<times> 'd \<times> decimal \<times> nat) list \<Rightarrow> ('d \<times> 'd \<times> decimal) list
   \<Rightarrow> ('d \<times> 'd) list \<Rightarrow> string set \<Rightarrow> TransactionOutput list \<Rightarrow> TransactionOutput list
   \<Rightarrow> TransactionOutput list \<Rightarrow> error + (TransactionOutput list \<times> TransactionOutput list)"
where
  "filter_loop parse_date parsed_q parsed_p parsed_k seen_dates valid_acc invalid_acc [] =
     Inr (valid_acc, invalid_acc)"
| "filter_loop parse_date parsed_q parsed_p parsed_k seen_dates valid_acc invalid_acc (tx # txs) =
     (if amount tx < 0 then
        filter_loop parse_date parsed_q parsed_p parsed_k seen_dates valid_acc
          (invalid_acc @ [tx\<lparr>message := Some ''Negative amounts are not allowed''\<rparr>]) txs
      else if date tx \<in> seen_dates then
        filter_loop parse_date parsed_q parsed_p parsed_k seen_dates valid_acc
          (invalid_acc @ [tx\<lparr>message := Some ''Duplicate transaction''\<rparr>]) txs
      else
        (case parse_date (date tx) of
           Inl e \<Rightarrow> Inl e
         | Inr tx_dt \<Rightarrow>
             (case process_transaction_rules_fast tx_dt (remanent tx) parsed_q parsed_p of
                Inl e \<Rightarrow> Inl e
              | Inr resolved \<Rightarrow>
                  filter_loop parse_date parsed_q parsed_p parsed_k (insert (date tx) seen_dates)
                    (valid_acc @
                       [tx\<lparr>remanent := resolved,
                           inkPeriod :=
                             Some (list_ex (\<lambda>(k_start, k_end). k_start \<le> tx_dt \<and> tx_dt \<le> k_end)
                                     parsed_k)\<rparr>])
                    invalid_acc txs)))"

definition filter_transactions ::
  "(string \<Rightarrow> error + 'd::linorder) \<Rightarrow> FilterRequest \<Rightarrow> error + ValidatorResponse"
where
  "filter_transactions parse_date payload =
     (case parse_q_rules parse_date (enumerate 0 (f_q payload)) of
        Inl e \<Rightarrow> Inl e
      | Inr parsed_q \<Rightarrow>
          (case parse_p_rules parse_date (f_p payload) of
             Inl e \<Rightarrow> Inl e
           | Inr parsed_p \<Rightarrow>
               (case parse_k_rules parse_date (f_k payload) of
                  Inl e \<Rightarrow> Inl e
                | Inr parsed_k \<Rightarrow>
                    (case filter_loop parse_date parsed_q parsed_p
                            (map (\<lambda>(s, en, _, _). (s, en)) parsed_k) {} [] []
                            (f_transactions payload) of
                       Inl e \<Rightarrow> Inl e
                     | Inr (valid_acc, invalid_acc) \<Rightarrow>
                         Inr \<lparr>valid = valid_acc, invalid = invalid_acc\<rparr>))))"

section \<open>Returns\<close>

text \<open>
  \<^verbatim>\<open>calculate_returns\<close> crosses into binary floating point once per window:
  \<^verbatim>\<open>float(period_amount)\<close>, \<^verbatim>\<open>fast_compound_math\<close> on floats, and
  \<^verbatim>\<open>Decimal(str(real_value))\<close> back. Floats are not modelled. That path is the parameter
  \<open>float_real_value\<close>: from \<^verbatim>\<open>period_amount\<close>, the rate of the preset,
  \<^verbatim>\<open>payload.inflation\<close> and \<^verbatim>\<open>years_to_invest\<close> it gives the decimal read back from
  \<^verbatim>\<open>real_value\<close>, or \<open>None\<close> where the float computation raises or ends in a value that is
  not finite (which no \<^verbatim>\<open>SavingsByDate\<close> can hold). Every theorem about
  \<^verbatim>\<open>calculate_returns\<close> holds for every such function.

  The whole body is inside \<^verbatim>\<open>try\<close>: whatever is raised, by \<^verbatim>\<open>parse_date\<close>, by the rule
  resolution or by a \<^verbatim>\<open>Decimal\<close> operation, leaves as \<^verbatim>\<open>RuntimeError\<close>.
  \<^verbatim>\<open>sum(..., Decimal('0.0'))\<close> is \<open>sum_decimal\<close>: the additions from the start value on, in
  the order of the list.
\<close>

fun sum_decimal :: "decimal \<Rightarrow> decimal list \<Rightarrow> decimal option" where
  "sum_decimal start [] = Some start"
| "sum_decimal start (x # xs) =
     (case dec_add start x of
        None \<Rightarrow> None
      | Some partial \<Rightarrow> sum_decimal partial xs)"

fun returns_loop ::
  "(string \<Rightarrow> error + 'd::linorder) \<Rightarrow> ('d \<times> 'd \<times> decimal \<times> nat) list \<Rightarrow> ('d \<times> 'd \<times> decimal) list
   \<Rightarrow> string set \<Rightarrow> ('d \<times> decimal) list \<Rightarrow> decimal \<Rightarrow> decimal \<Rightarrow> TransactionOutput list
   \<Rightarrow> error + (('d \<times> decimal) list \<times> decimal \<times> decimal)"
where
  "returns_loop parse_date parsed_q parsed_p seen_dates valid_txs total_tx_amount total_ceiling [] =
     Inr (valid_txs, total_tx_amount, total_ceiling)"
| "returns_loop parse_date parsed_q parsed_p seen_dates valid_txs total_tx_amount total_ceiling
     (tx # txs) =
     (if amount tx \<ge> 0 \<and> date tx \<notin> seen_dates then
        (case parse_date (date tx) of
           Inl e \<Rightarrow> Inl RuntimeError
         | Inr tx_dt \<Rightarrow>
             (case process_transaction_rules_fast tx_dt (remanent tx) parsed_q parsed_p of
                Inl e \<Rightarrow> Inl RuntimeError
              | Inr resolved \<Rightarrow>
                  (case dec_add total_tx_amount (amount tx) of
                     None \<Rightarrow> Inl RuntimeError
                   | Some new_total_tx_amount \<Rightarrow>
                       (case dec_add total_ceiling (ceiling_d tx) of
                          None \<Rightarrow> Inl RuntimeError
                        | Some new_total_ceiling \<Rightarrow>
                            returns_loop parse_date parsed_q parsed_p
                              (insert (date tx) seen_dates) (valid_txs @ [(tx_dt, resolved)])
                              new_total_tx_amount new_total_ceiling txs))))
      else
        returns_loop parse_date parsed_q parsed_p seen_dates valid_txs total_tx_amount
          total_ceiling txs)"

text \<open>
  The tax-benefit block of the loop over the windows, run only for the NPS preset:
  \<^verbatim>\<open>deduction = min(period_amount, Decimal('0.10') * yearly_income, Decimal('200000.0'))\<close>,
  the two calls of \<^verbatim>\<open>calculate_tax\<close>, and the difference quantized.
\<close>

definition tax_benefit_block :: "decimal \<Rightarrow> decimal \<Rightarrow> error + decimal" where
  "tax_benefit_block period_amount yearly_income =
     (case dec_mul (10 / 100) yearly_income of
        None \<Rightarrow> Inl RuntimeError
      | Some tenth \<Rightarrow>
          (let deduction = min period_amount (min tenth 200000)
           in case calculate_tax yearly_income of
                Inl e \<Rightarrow> Inl RuntimeError
              | Inr base_tax \<Rightarrow>
                  (case dec_sub yearly_income deduction of
                     None \<Rightarrow> Inl RuntimeError
                   | Some reduced \<Rightarrow>
                       (case calculate_tax reduced of
                          Inl e \<Rightarrow> Inl RuntimeError
                        | Inr new_tax \<Rightarrow>
                            (case dec_sub base_tax new_tax of
                               None \<Rightarrow> Inl RuntimeError
                             | Some difference \<Rightarrow>
                                 (case quantize2 difference of
                                    None \<Rightarrow> Inl RuntimeError
                                  | Some tax_benefit \<Rightarrow> Inr tax_benefit))))))"

fun savings_loop ::
  "(decimal \<Rightarrow> decimal \<Rightarrow> decimal \<Rightarrow> int \<Rightarrow> decimal option) \<Rightarrow> decimal \<Rightarrow> bool \<Rightarrow> decimal \<Rightarrow> int
   \<Rightarrow> decimal \<Rightarrow> ('d::linorder \<times> decimal) list \<Rightarrow> ('d \<times> 'd \<times> string \<times> string) list
   \<Rightarrow> error + SavingsByDate list"
where
  "savings_loop float_real_value rate is_nps yearly_income years_to_invest inflation valid_txs [] =
     Inr []"
| "savings_loop float_real_value rate is_nps yearly_income years_to_invest inflation valid_txs
     ((k_start_dt, k_end_dt, k_start_str, k_end_str) # parsed_k) =
     (case sum_decimal 0
             (map snd (filter (\<lambda>(dt, rem). k_start_dt \<le> dt \<and> dt \<le> k_end_dt) valid_txs)) of
        None \<Rightarrow> Inl RuntimeError
      | Some period_amount \<Rightarrow>
          (case float_real_value period_amount rate inflation years_to_invest of
             None \<Rightarrow> Inl RuntimeError
           | Some real_value \<Rightarrow>
               (case dec_sub real_value period_amount of
                  None \<Rightarrow> Inl RuntimeError
                | Some gain \<Rightarrow>
                    (case quantize2 gain of
                       None \<Rightarrow> Inl RuntimeError
                     | Some profit_d \<Rightarrow>
                         (case (if is_nps then tax_benefit_block period_amount yearly_income
                                else Inr 0) of
                            Inl e \<Rightarrow> Inl RuntimeError
                          | Inr tax_benefit \<Rightarrow>
                              (case quantize2 period_amount of
                                 None \<Rightarrow> Inl RuntimeError
                               | Some amount_d \<Rightarrow>
                                   (case savings_loop float_real_value rate is_nps yearly_income
                                           years_to_invest inflation valid_txs parsed_k of
                                      Inl e \<Rightarrow> Inl e
                                    | Inr savings_by_dates \<Rightarrow>
                                        Inr (\<lparr>s_start = k_start_str, s_end = k_end_str,
                                               s_amount = amount_d, profit = Some profit_d,
                                               taxBenefit =
                                                 (if is_nps then Some tax_benefit else None)\<rparr>
                                             # savings_by_dates))))))))"

definition calculate_returns ::
  "(string \<Rightarrow> error + 'd::linorder) \<Rightarrow> (decimal \<Rightarrow> decimal \<Rightarrow> decimal \<Rightarrow> int \<Rightarrow> decimal option)
   \<Rightarrow> ReturnsRequest \<Rightarrow> decimal \<Rightarrow> bool \<Rightarrow> error + ReturnsResponse"
where
  "calculate_returns parse_date float_real_value payload rate is_nps =
     (case parse_q_rules parse_date (enumerate 0 (r_q payload)) of
        Inl e \<Rightarrow> Inl RuntimeError
      | Inr parsed_q \<Rightarrow>
          (case parse_p_rules parse_date (r_p payload) of
             Inl e \<Rightarrow> Inl RuntimeError
           | Inr parsed_p \<Rightarrow>
               (case parse_k_rules parse_date (r_k payload) of
                  Inl e \<Rightarrow> Inl RuntimeError
                | Inr parsed_k \<Rightarrow>
                    (case returns_loop parse_date parsed_q parsed_p {} [] 0 0
                            (r_transactions payload) of
                       Inl e \<Rightarrow> Inl RuntimeError
                     | Inr (valid_txs, total_tx_amount, total_ceiling) \<Rightarrow>
                         (case dec_mul (r_wage payload) 12 of
                            None \<Rightarrow> Inl RuntimeError
                          | Some yearly_income \<Rightarrow>
                              (let years_to_invest = max (60 - r_age payload) 5
                               in case savings_loop float_real_value rate is_nps yearly_income
                                         years_to_invest (r_inflation payload) valid_txs
                                         parsed_k of
                                    Inl e \<Rightarrow> Inl RuntimeError
                                  | Inr savings_by_dates \<Rightarrow>
                                      (case quantize2 total_tx_amount of
                                         None \<Rightarrow> Inl RuntimeError
                                       | Some total_amount_d \<Rightarrow>
                                           (case quantize2 total_ceiling of
                                              None \<Rightarrow> Inl RuntimeError
                                            | Some total_ceiling_d \<Rightarrow>
                                                Inr \<lparr>totalTransactionAmount = total_amount_d,
                                                     totalCeiling = total_ceiling_d,
                                                     savingsByDates = savings_by_dates\<rparr>))))))))"

definition returns_nps ::
  "(string \<Rightarrow> error + 'd::linorder) \<Rightarrow> (decimal \<Rightarrow> decimal \<Rightarrow> decimal \<Rightarrow> int \<Rightarrow> decimal option)
   \<Rightarrow> ReturnsRequest \<Rightarrow> error + ReturnsResponse"
where
  "returns_nps parse_date float_real_value payload =
     calculate_returns parse_date float_real_value payload (711 / 10000) True"

definition returns_index ::
  "(string \<Rightarrow> error + 'd::linorder) \<Rightarrow> (decimal \<Rightarrow> decimal \<Rightarrow> decimal \<Rightarrow> int \<Rightarrow> decimal option)
   \<Rightarrow> ReturnsRequest \<Rightarrow> error + ReturnsResponse"
where
  "returns_index parse_date float_real_value payload =
     calculate_returns parse_date float_real_value payload (1449 / 10000) False"

section \<open>Notions of the specification\<close>

text \<open>
  The specification computes with exact decimals: \<open>round2\<close> is its rounding to two
  fraction digits, a half away from zero, with no limit on the digits, and \<open>spec_mod\<close> the
  \<open>mod\<close> of its formula for the remanent, \<open>(100 - (amount mod 100)) mod 100\<close>: the
  mathematical remainder, of the floored division. Both are written here from the
  specification, to be compared with what the program computes under its context.
\<close>

definition round2 :: "rat \<Rightarrow> rat" where
  "round2 x =
     (if 0 \<le> x then of_int \<lfloor>x * 100 + 1 / 2\<rfloor> / 100
      else - (of_int \<lfloor>- x * 100 + 1 / 2\<rfloor> / 100))"

definition spec_mod :: "rat \<Rightarrow> rat \<Rightarrow> rat" where
  "spec_mod x m = x - m * of_int \<lfloor>x / m\<rfloor>"

text \<open>
  The decimals on which the context changes nothing: \<open>fits f g x\<close> says that \<open>x\<close> has at
  most \<open>f\<close> fraction digits and is below \<open>10^g\<close> in magnitude. With \<open>f + g \<le> 28\<close> such a
  value has at most 28 significant digits.
\<close>

definition fits :: "nat \<Rightarrow> nat \<Rightarrow> rat \<Rightarrow> bool" where
  "fits f g x \<longleftrightarrow> of_int \<lfloor>x * 10 ^ f\<rfloor> = x * 10 ^ f \<and> \<bar>x\<bar> < 10 ^ g"

text \<open>
  The words of the specification for the rule resolution, over the parsed rules: a rule
  applies at a timestamp when its closed interval contains it; a fixed rule \<open>w\<close> wins over
  \<open>q\<close> when \<open>q\<close> starts earlier, or starts together with \<open>w\<close> and has no higher ordinal;
  and the sum of \<^verbatim>\<open>extra\<close> over the additive rules that apply.
\<close>

definition q_applies :: "'d::linorder \<Rightarrow> 'd \<times> 'd \<times> decimal \<times> nat \<Rightarrow> bool" where
  "q_applies t q = (case q of (q_start, q_end, q_fixed, q_idx) \<Rightarrow> q_start \<le> t \<and> t \<le> q_end)"

definition q_ordinal :: "'d \<times> 'd \<times> decimal \<times> nat \<Rightarrow> nat" where
  "q_ordinal q = (case q of (q_start, q_end, q_fixed, q_idx) \<Rightarrow> q_idx)"

definition q_value :: "'d \<times> 'd \<times> decimal \<times> nat \<Rightarrow> decimal" where
  "q_value q = (case q of (q_start, q_end, q_fixed, q_idx) \<Rightarrow> q_fixed)"

definition q_wins_over :: "'d::linorder \<times> 'd \<times> decimal \<times> nat \<Rightarrow> 'd \<times> 'd \<times> decimal \<times> nat \<Rightarrow> bool" where
  "q_wins_over w q =
     (fst q < fst w \<or> (fst q = fst w \<and> q_ordinal q \<le> q_ordinal w))"

definition p_applies :: "'d::linorder \<Rightarrow> 'd \<times> 'd \<times> decimal \<Rightarrow> bool" where
  "p_applies t p = (case p of (p_start, p_end, p_extra) \<Rightarrow> p_start \<le> t \<and> t \<le> p_end)"

definition extras_at :: "'d::linorder \<Rightarrow> ('d \<times> 'd \<times> decimal) list \<Rightarrow> decimal" where
  "extras_at t parsed_p = sum_list (map (\<lambda>p. snd (snd p)) (filter (p_applies t) parsed_p))"

text \<open>
  A transaction with its \<^verbatim>\<open>message\<close> field blanked: the validator writes the reason of a
  rejection into \<^verbatim>\<open>message\<close> and leaves every other field as it was, so the entries of its
  output are compared with the input up to that field.
\<close>

definition without_message :: "TransactionOutput \<Rightarrow> TransactionOutput" where
  "without_message tx = tx\<lparr>message := None\<rparr>"

text \<open>
  The words of the specification for the tax and the tax-benefit path, in exact
  arithmetic: \<open>tax\<close> as the bracket formula with the count of thresholds not above the
  income as index, and
  \<open>taxBenefit = round2(tax(yearlyIncome) - tax(yearlyIncome - deduction))\<close> with
  \<open>deduction = min(periodAmount, 0.10 * yearlyIncome, 200000)\<close>.
\<close>

definition spec_tax :: "rat \<Rightarrow> rat" where
  "spec_tax yearly_income =
     (let idx = length (filter (\<lambda>t. t \<le> yearly_income) THRESHOLDS)
      in round2 (BASE_TAX ! idx + (yearly_income - PREV_THRESHOLDS ! idx) * RATES ! idx))"

definition spec_tax_benefit :: "rat \<Rightarrow> rat \<Rightarrow> rat" where
  "spec_tax_benefit yearly_income period_amount =
     round2 (spec_tax yearly_income
       - spec_tax (yearly_income - min period_amount (min (10 / 100 * yearly_income) 200000)))"


section \<open>Resolution of the fixed rules\<close>

lemma sorted_le_last: "sorted xs \<Longrightarrow> x \<in> set xs \<Longrightarrow> x \<le> last xs"
  by (induction xs) auto

lemma sort_reverse_hd:
  assumes "xs \<noteq> []"
  shows "hd (sort_reverse key xs) \<in> set xs"
    and "\<forall>y\<in>set xs. key y \<le> key (hd (sort_reverse key xs))"
proof -
  define ys where "ys = sort_key key (rev xs)"
  have set_ys: "set ys = set xs" by (simp add: ys_def)
  then have ne: "ys \<noteq> []" using assms by auto
  have hd_eq: "hd (sort_reverse key xs) = last ys"
    by (simp add: sort_reverse_def ys_def hd_rev)
  show "hd (sort_reverse key xs) \<in> set xs"
    unfolding hd_eq using ne set_ys last_in_set by blast
  have sorted: "sorted (map key ys)" by (simp add: ys_def)
  show "\<forall>y\<in>set xs. key y \<le> key (hd (sort_reverse key xs))"
  proof
    fix y assume "y \<in> set xs"
    then have "key y \<in> set (map key ys)" using set_ys by simp
    then have "key y \<le> last (map key ys)" by (rule sorted_le_last [OF sorted])
    then show "key y \<le> key (hd (sort_reverse key xs))"
      unfolding hd_eq using ne by (simp add: last_map)
  qed
qed

lemma process_no_rules: "process_transaction_rules_fast t b [] [] = Inr b"
  by (simp add: process_transaction_rules_fast_def)

lemma process_from_base:
  "process_transaction_rules_fast t v [] parsed_p
     = (case add_extras t v parsed_p of None \<Rightarrow> Inl RuntimeError | Some r \<Rightarrow> Inr r)"
  by (simp add: process_transaction_rules_fast_def)

lemma process_no_fixed:
  assumes "\<not> (\<exists>q\<in>set parsed_q. q_applies t q)"
  shows "process_transaction_rules_fast t b parsed_q parsed_p
      = process_transaction_rules_fast t b [] parsed_p"
proof -
  have "filter (\<lambda>(q_start, q_end, q_fixed, q_idx). q_start \<le> t \<and> t \<le> q_end) parsed_q = []"
    using assms by (auto simp: filter_empty_conv q_applies_def)
  then show ?thesis
    by (simp add: process_transaction_rules_fast_def)
qed

lemma process_winner:
  assumes "\<exists>q\<in>set parsed_q. q_applies t q"
  shows "\<exists>w\<in>set parsed_q. q_applies t w
           \<and> (\<forall>q\<in>set parsed_q. q_applies t q \<longrightarrow> q_wins_over w q)
           \<and> (\<forall>parsed_p. process_transaction_rules_fast t b parsed_q parsed_p
                 = process_transaction_rules_fast t (q_value w) [] parsed_p)"
proof -
  define conv :: "'a \<times> 'a \<times> rat \<times> nat \<Rightarrow> 'a \<times> nat \<times> rat"
    where "conv = (\<lambda>(q_start, q_end, q_fixed, q_idx). (q_start, q_idx, q_fixed))"
  define sel where "sel = filter (\<lambda>(q_start, q_end, q_fixed, q_idx). q_start \<le> t \<and> t \<le> q_end) parsed_q"
  define key :: "'a \<times> nat \<times> rat \<Rightarrow> 'a \<times> nat" where "key = (\<lambda>x. (fst x, fst (snd x)))"
  define h where "h = hd (sort_reverse key (map conv sel))"
  have sel_set: "set sel = {q \<in> set parsed_q. q_applies t q}"
    by (auto simp: sel_def q_applies_def)
  then have ne: "map conv sel \<noteq> []" using assms by auto
  have h_in: "h \<in> set (map conv sel)"
    unfolding h_def by (rule sort_reverse_hd(1) [OF ne])
  have h_max: "\<forall>y\<in>set (map conv sel). key y \<le> key h"
    unfolding h_def by (rule sort_reverse_hd(2) [OF ne])
  from h_in obtain w where w: "w \<in> set sel" "h = conv w" by auto
  have w_in: "w \<in> set parsed_q" and w_app: "q_applies t w" using w(1) sel_set by auto
  have key_conv: "key (conv q) = (fst q, q_ordinal q)" for q
    by (cases q) (simp add: key_def conv_def q_ordinal_def)
  have wins: "q_wins_over w q" if "q \<in> set parsed_q" "q_applies t q" for q
  proof -
    have "conv q \<in> set (map conv sel)" using that sel_set by auto
    then have "key (conv q) \<le> key h" using h_max by blast
    then have "(fst q, q_ordinal q) \<le> (fst w, q_ordinal w)"
      by (simp only: w(2) key_conv)
    then show ?thesis
      unfolding q_wins_over_def less_eq_prod_def by auto
  qed
  have "snd (snd h) = q_value w"
    unfolding w(2) by (cases w) (simp add: conv_def q_value_def)
  then have "process_transaction_rules_fast t b parsed_q parsed_p
      = process_transaction_rules_fast t (q_value w) [] parsed_p" for parsed_p
    using ne
    by (simp add: process_transaction_rules_fast_def h_def key_def conv_def sel_def)
  with w_in w_app wins show ?thesis by blast
qed

lemma winner_unique:
  assumes "distinct (map q_ordinal parsed_q)" "w \<in> set parsed_q" "w' \<in> set parsed_q"
    and "q_wins_over w w'" "q_wins_over w' w"
  shows "w' = w"
proof -
  have "q_ordinal w' = q_ordinal w"
    using assms(4,5) unfolding q_wins_over_def by auto
  moreover have "inj_on q_ordinal (set parsed_q)"
    using assms(1) by (simp add: distinct_map)
  ultimately show ?thesis using assms(2,3) by (auto dest: inj_onD)
qed

lemma parse_q_rules_ordinals:
  "parse_q_rules parse_date (enumerate n qs) = Inr parsed_q
   \<Longrightarrow> map q_ordinal parsed_q = [n..<n + length qs]"
proof (induction qs arbitrary: n parsed_q)
  case Nil
  then show ?case by auto
next
  case (Cons q qs)
  from Cons.prems obtain s en rest where
    rest: "parse_q_rules parse_date (enumerate (Suc n) qs) = Inr rest"
    and pq: "parsed_q = (s, en, fixed_q q, n) # rest"
    by (auto split: sum.splits)
  have ih: "map q_ordinal rest = [Suc n..<Suc n + length qs]" by (rule Cons.IH [OF rest])
  have first: "q_ordinal (s, en, fixed_q q, n) = n" by (simp add: q_ordinal_def)
  have up: "[n..<n + length (q # qs)] = n # [Suc n..<Suc n + length qs]"
    using upt_conv_Cons [of n "Suc n + length qs"] by simp
  show ?case unfolding pq up by (simp only: list.map first ih)
qed

text \<open>
  C1. For every timestamp \<open>t\<close>, base remanent \<open>b\<close> and list of fixed (Q) rules: if no Q
  rule's closed interval contains \<open>t\<close>, \<open>b\<close> is carried through: the fixed rules return
  \<open>b\<close> itself, and the additive rules start from \<open>b\<close>. Otherwise one of the rules that
  contain \<open>t\<close> is the winner: it has the latest start among them and, among those with
  that start, the highest ordinal; the fixed rules return the winner's fixed value (not
  \<open>b\<close>, and nothing of \<open>b\<close> added), and the additive rules start from that value, as if it
  had been the base. With distinct ordinals the winner is the only rule with that
  property, and the ordinals the endpoints give are the positions of declaration
  \<open>0, 1, 2, ...\<close>.
\<close>

theorem fixed_rule_winner:
  "(\<not> (\<exists>q\<in>set parsed_q. q_applies t q) \<longrightarrow>
      process_transaction_rules_fast t b parsed_q [] = Inr b
      \<and> process_transaction_rules_fast t b parsed_q parsed_p
          = process_transaction_rules_fast t b [] parsed_p)
   \<and> ((\<exists>q\<in>set parsed_q. q_applies t q) \<longrightarrow>
        (\<exists>w\<in>set parsed_q. q_applies t w
           \<and> (\<forall>q\<in>set parsed_q. q_applies t q \<longrightarrow> q_wins_over w q)
           \<and> process_transaction_rules_fast t b parsed_q [] = Inr (q_value w)
           \<and> process_transaction_rules_fast t b parsed_q parsed_p
               = process_transaction_rules_fast t (q_value w) [] parsed_p
           \<and> (distinct (map q_ordinal parsed_q) \<longrightarrow>
                (\<forall>w'\<in>set parsed_q.
                    q_applies t w' \<and> (\<forall>q\<in>set parsed_q. q_applies t q \<longrightarrow> q_wins_over w' q)
                    \<longrightarrow> w' = w))))
   \<and> (parse_q_rules parse_date (enumerate 0 qs) = Inr parsed_q \<longrightarrow>
        map q_ordinal parsed_q = [0..<length qs])"
proof (intro conjI impI)
  assume no: "\<not> (\<exists>q\<in>set parsed_q. q_applies t q)"
  show "process_transaction_rules_fast t b parsed_q [] = Inr b"
    by (simp only: process_no_fixed [OF no] process_no_rules)
  show "process_transaction_rules_fast t b parsed_q parsed_p
      = process_transaction_rules_fast t b [] parsed_p"
    using no by (rule process_no_fixed)
next
  assume ex: "\<exists>q\<in>set parsed_q. q_applies t q"
  from process_winner [OF ex, of b] obtain w where
    w: "w \<in> set parsed_q" "q_applies t w"
      "\<forall>q\<in>set parsed_q. q_applies t q \<longrightarrow> q_wins_over w q"
      "\<forall>parsed_p. process_transaction_rules_fast t b parsed_q parsed_p
         = process_transaction_rules_fast t (q_value w) [] parsed_p"
    by blast
  have alone: "process_transaction_rules_fast t b parsed_q [] = Inr (q_value w)"
    by (simp only: w(4) [rule_format, of "[]"] process_no_rules)
  have full: "process_transaction_rules_fast t b parsed_q parsed_p
      = process_transaction_rules_fast t (q_value w) [] parsed_p"
    by (rule w(4) [rule_format])
  have "w' = w"
    if "distinct (map q_ordinal parsed_q)" "w' \<in> set parsed_q" "q_applies t w'"
      "\<forall>q\<in>set parsed_q. q_applies t q \<longrightarrow> q_wins_over w' q" for w'
    using winner_unique [OF that(1) w(1) that(2)] w(1,2,3) that(2,3,4) by blast
  with w(1,2,3) alone full
  show "\<exists>w\<in>set parsed_q. q_applies t w
           \<and> (\<forall>q\<in>set parsed_q. q_applies t q \<longrightarrow> q_wins_over w q)
           \<and> process_transaction_rules_fast t b parsed_q [] = Inr (q_value w)
           \<and> process_transaction_rules_fast t b parsed_q parsed_p
               = process_transaction_rules_fast t (q_value w) [] parsed_p
           \<and> (distinct (map q_ordinal parsed_q) \<longrightarrow>
                (\<forall>w'\<in>set parsed_q.
                    q_applies t w' \<and> (\<forall>q\<in>set parsed_q. q_applies t q \<longrightarrow> q_wins_over w' q)
                    \<longrightarrow> w' = w))"
    by blast
next
  assume "parse_q_rules parse_date (enumerate 0 qs) = Inr parsed_q"
  from parse_q_rules_ordinals [OF this] show "map q_ordinal parsed_q = [0..<length qs]"
    by simp
qed

theorem fixed_rule_winner_witness:
  "(\<exists>q\<in>set [(1::nat, 10::nat, 100::rat, 0::nat), (3, 9, 200, 1), (3, 7, 300, 2), (6, 9, 400, 3)].
      q_applies 5 q)
   \<and> distinct (map q_ordinal
        [(1::nat, 10::nat, 100::rat, 0::nat), (3, 9, 200, 1), (3, 7, 300, 2), (6, 9, 400, 3)])
   \<and> (\<exists>w\<in>set [(1::nat, 10::nat, 100::rat, 0::nat), (3, 9, 200, 1), (3, 7, 300, 2), (6, 9, 400, 3)].
         q_applies 5 w \<and> q_wins_over w (3, 9, 200, 1)
         \<and> process_transaction_rules_fast 5 50
              [(1::nat, 10::nat, 100::rat, 0::nat), (3, 9, 200, 1), (3, 7, 300, 2), (6, 9, 400, 3)]
              []
            = Inr (q_value w)
         \<and> process_transaction_rules_fast 5 50
              [(1::nat, 10::nat, 100::rat, 0::nat), (3, 9, 200, 1), (3, 7, 300, 2), (6, 9, 400, 3)]
              [(0::nat, 5::nat, 10::rat), (5, 5, 20), (6, 7, 40)]
            = process_transaction_rules_fast 5 (q_value w) []
                [(0::nat, 5::nat, 10::rat), (5, 5, 20), (6, 7, 40)])
   \<and> process_transaction_rules_fast 5 50
        [(1::nat, 10::nat, 100::rat, 0::nat), (3, 9, 200, 1), (3, 7, 300, 2), (6, 9, 400, 3)]
        [] = Inr 300
   \<and> process_transaction_rules_fast 5 50
        [(1::nat, 10::nat, 100::rat, 0::nat), (3, 9, 200, 1), (3, 7, 300, 2), (6, 9, 400, 3)]
        [(0::nat, 5::nat, 10::rat), (5, 5, 20), (6, 7, 40)] = Inr 330"
proof -
  define QS :: "(nat \<times> nat \<times> rat \<times> nat) list"
    where "QS = [(1, 10, 100, 0), (3, 9, 200, 1), (3, 7, 300, 2), (6, 9, 400, 3)]"
  define PS :: "(nat \<times> nat \<times> rat) list" where "PS = [(0, 5, 10), (5, 5, 20), (6, 7, 40)]"
  have ap: "q_applies (5::nat) (3::nat, 9::nat, 200::rat, 1::nat)" by (simp add: q_applies_def)
  have mem: "(3::nat, 9::nat, 200::rat, 1::nat) \<in> set QS" by (simp add: QS_def)
  have ex: "\<exists>q\<in>set QS. q_applies 5 q" using ap mem by blast
  have d: "distinct (map q_ordinal QS)" by (simp add: QS_def q_ordinal_def)
  have v0: "process_transaction_rules_fast 5 50 QS [] = Inr 300"
    unfolding QS_def by code_simp
  have v: "process_transaction_rules_fast 5 50 QS PS = Inr 330"
    unfolding QS_def PS_def by code_simp
  from fixed_rule_winner [of QS 5 50 PS "\<lambda>s. Inr 0" "[]"] ex
  obtain w where w: "w \<in> set QS" "q_applies 5 w"
    "\<forall>q\<in>set QS. q_applies 5 q \<longrightarrow> q_wins_over w q"
    "process_transaction_rules_fast 5 50 QS [] = Inr (q_value w)"
    "process_transaction_rules_fast 5 50 QS PS
       = process_transaction_rules_fast 5 (q_value w) [] PS"
    by blast
  from w(3) ap mem have "q_wins_over w (3, 9, 200, 1)" by blast
  with w have "\<exists>w\<in>set QS. q_applies 5 w \<and> q_wins_over w (3, 9, 200, 1)
      \<and> process_transaction_rules_fast 5 50 QS [] = Inr (q_value w)
      \<and> process_transaction_rules_fast 5 50 QS PS
          = process_transaction_rules_fast 5 (q_value w) [] PS"
    by blast
  with ex d v0 v have "(\<exists>q\<in>set QS. q_applies 5 q) \<and> distinct (map q_ordinal QS)
      \<and> (\<exists>w\<in>set QS. q_applies 5 w \<and> q_wins_over w (3, 9, 200, 1)
           \<and> process_transaction_rules_fast 5 50 QS [] = Inr (q_value w)
           \<and> process_transaction_rules_fast 5 50 QS PS
               = process_transaction_rules_fast 5 (q_value w) [] PS)
      \<and> process_transaction_rules_fast 5 50 QS [] = Inr 300
      \<and> process_transaction_rules_fast 5 50 QS PS = Inr 330"
    by (intro conjI)
  then show ?thesis unfolding QS_def PS_def .
qed

section \<open>The validator's partition\<close>

lemma validate_loop_partition:
  "\<exists>dv di. validate_loop seen v i txs = (v @ dv, i @ di)
     \<and> length dv + length di = length txs
     \<and> subseq dv txs
     \<and> subseq (map without_message di) (map without_message txs)
     \<and> mset (map without_message dv) + mset (map without_message di)
         = mset (map without_message txs)"
proof (induction txs arbitrary: seen v i)
  case Nil
  show ?case by simp
next
  case (Cons tx txs)
  show ?case
  proof (cases "amount tx < 0")
    case True
    define tx' where "tx' = tx\<lparr>message := Some ''Negative amounts are not allowed''\<rparr>"
    have wm: "without_message tx' = without_message tx"
      by (simp add: tx'_def without_message_def)
    from Cons.IH [of seen v "i @ [tx']"] obtain dv di where
      r: "validate_loop seen v (i @ [tx']) txs = (v @ dv, (i @ [tx']) @ di)"
      and l: "length dv + length di = length txs"
      and s1: "subseq dv txs"
      and s2: "subseq (map without_message di) (map without_message txs)"
      and m: "mset (map without_message dv) + mset (map without_message di)
         = mset (map without_message txs)"
      by blast
    have "validate_loop seen v i (tx # txs) = (v @ dv, i @ (tx' # di))"
      using True r by (simp add: tx'_def)
    moreover have "length dv + length (tx' # di) = length (tx # txs)" using l by simp
    moreover have "subseq dv (tx # txs)" using s1 by (rule list_emb_Cons)
    moreover have "subseq (map without_message (tx' # di)) (map without_message (tx # txs))"
      using s2 by (simp add: wm)
    moreover have "mset (map without_message dv) + mset (map without_message (tx' # di))
         = mset (map without_message (tx # txs))"
      using m by (simp add: wm)
    ultimately show ?thesis by blast
  next
    case nonneg: False
    show ?thesis
    proof (cases "date tx \<in> seen")
      case True
      define tx' where "tx' = tx\<lparr>message := Some ''Duplicate transaction''\<rparr>"
      have wm: "without_message tx' = without_message tx"
        by (simp add: tx'_def without_message_def)
      from Cons.IH [of seen v "i @ [tx']"] obtain dv di where
        r: "validate_loop seen v (i @ [tx']) txs = (v @ dv, (i @ [tx']) @ di)"
        and l: "length dv + length di = length txs"
        and s1: "subseq dv txs"
        and s2: "subseq (map without_message di) (map without_message txs)"
        and m: "mset (map without_message dv) + mset (map without_message di)
           = mset (map without_message txs)"
        by blast
      have "validate_loop seen v i (tx # txs) = (v @ dv, i @ (tx' # di))"
        using nonneg True r by (simp add: tx'_def)
      moreover have "length dv + length (tx' # di) = length (tx # txs)" using l by simp
      moreover have "subseq dv (tx # txs)" using s1 by (rule list_emb_Cons)
      moreover have "subseq (map without_message (tx' # di)) (map without_message (tx # txs))"
        using s2 by (simp add: wm)
      moreover have "mset (map without_message dv) + mset (map without_message (tx' # di))
           = mset (map without_message (tx # txs))"
        using m by (simp add: wm)
      ultimately show ?thesis by blast
    next
      case False
      from Cons.IH [of "insert (date tx) seen" "v @ [tx]" i] obtain dv di where
        r: "validate_loop (insert (date tx) seen) (v @ [tx]) i txs = ((v @ [tx]) @ dv, i @ di)"
        and l: "length dv + length di = length txs"
        and s1: "subseq dv txs"
        and s2: "subseq (map without_message di) (map without_message txs)"
        and m: "mset (map without_message dv) + mset (map without_message di)
           = mset (map without_message txs)"
        by blast
      have "validate_loop seen v i (tx # txs) = (v @ (tx # dv), i @ di)"
        using nonneg False r by simp
      moreover have "length (tx # dv) + length di = length (tx # txs)" using l by simp
      moreover have "subseq (tx # dv) (tx # txs)" using s1 by simp
      moreover have "subseq (map without_message di) (map without_message (tx # txs))"
        using s2 by (simp add: list_emb_Cons)
      moreover have "mset (map without_message (tx # dv)) + mset (map without_message di)
           = mset (map without_message (tx # txs))"
        using m by simp
      ultimately show ?thesis by blast
    qed
  qed
qed

text \<open>
  C9. For every input sequence the validator partitions it completely: the number of
  valid entries plus the number of invalid entries is the number of input entries, each
  output list is a subsequence of the input (the valid entries unchanged, the invalid
  ones up to the \<^verbatim>\<open>message\<close> the validator writes), so the relative order of the input is
  kept within each list, and together the two lists hold exactly the input transactions.
\<close>

theorem validate_transactions_partition:
  "length (valid (validate_transactions payload)) + length (invalid (validate_transactions payload))
     = length (v_transactions payload)
   \<and> subseq (valid (validate_transactions payload)) (v_transactions payload)
   \<and> subseq (map without_message (invalid (validate_transactions payload)))
       (map without_message (v_transactions payload))
   \<and> mset (map without_message (valid (validate_transactions payload)))
       + mset (map without_message (invalid (validate_transactions payload)))
       = mset (map without_message (v_transactions payload))"
proof -
  from validate_loop_partition [of "{}" "[]" "[]" "v_transactions payload"]
  obtain dv di where
    r: "validate_loop {} [] [] (v_transactions payload) = (dv, di)"
    and rest: "length dv + length di = length (v_transactions payload)"
      "subseq dv (v_transactions payload)"
      "subseq (map without_message di) (map without_message (v_transactions payload))"
      "mset (map without_message dv) + mset (map without_message di)
         = mset (map without_message (v_transactions payload))"
    by auto
  have "valid (validate_transactions payload) = dv" "invalid (validate_transactions payload) = di"
    by (simp_all add: validate_transactions_def r)
  with rest show ?thesis by simp
qed


section \<open>Negative amounts in the validator and the filter\<close>

lemma validate_loop_negatives:
  "filter (\<lambda>t. amount t < 0) (snd (validate_loop seen v i txs))
     = filter (\<lambda>t. amount t < 0) i
       @ map (\<lambda>t. t\<lparr>message := Some ''Negative amounts are not allowed''\<rparr>)
           (filter (\<lambda>t. amount t < 0) txs)
   \<and> filter (\<lambda>t. amount t < 0) (fst (validate_loop seen v i txs))
     = filter (\<lambda>t. amount t < 0) v"
  by (induction txs arbitrary: seen v i) simp_all

lemma filter_loop_negatives:
  "filter_loop parse_date parsed_q parsed_p parsed_k seen v i txs = Inr (v', i')
   \<Longrightarrow> filter (\<lambda>t. amount t < 0) i'
         = filter (\<lambda>t. amount t < 0) i
           @ map (\<lambda>t. t\<lparr>message := Some ''Negative amounts are not allowed''\<rparr>)
               (filter (\<lambda>t. amount t < 0) txs)
       \<and> filter (\<lambda>t. amount t < 0) v' = filter (\<lambda>t. amount t < 0) v"
proof (induction txs arbitrary: seen v i)
  case Nil
  then show ?case by simp
next
  case (Cons tx txs)
  show ?case
  proof (cases "amount tx < 0")
    case True
    then show ?thesis using Cons.prems Cons.IH by simp
  next
    case nonneg: False
    show ?thesis
    proof (cases "date tx \<in> seen")
      case True
      then show ?thesis using nonneg Cons.prems Cons.IH by simp
    next
      case False
      then obtain tx_dt resolved where dt: "parse_date (date tx) = Inr tx_dt"
        and res: "process_transaction_rules_fast tx_dt (remanent tx) parsed_q parsed_p
            = Inr resolved"
        using nonneg Cons.prems by (auto split: sum.splits)
      then show ?thesis using nonneg False Cons.prems Cons.IH by simp
    qed
  qed
qed

lemma negatives_classified:
  fixes rej acc txs :: "TransactionOutput list"
  assumes rej: "filter (\<lambda>t. amount t < 0) rej
      = map (\<lambda>t. t\<lparr>message := Some ''Negative amounts are not allowed''\<rparr>)
          (filter (\<lambda>t. amount t < 0) txs)"
    and acc: "filter (\<lambda>t. amount t < 0) acc = []"
    and tx: "tx \<in> set txs" "amount tx < 0"
  shows "tx\<lparr>message := Some ''Negative amounts are not allowed''\<rparr> \<in> set rej"
    and "tx\<lparr>message := Some ''Duplicate transaction''\<rparr> \<notin> set rej"
    and "tx \<notin> set acc"
proof -
  have "tx \<in> set (filter (\<lambda>t. amount t < 0) txs)" using tx by simp
  then have "tx\<lparr>message := Some ''Negative amounts are not allowed''\<rparr>
      \<in> set (filter (\<lambda>t. amount t < 0) rej)"
    unfolding rej set_map by (rule imageI)
  then show "tx\<lparr>message := Some ''Negative amounts are not allowed''\<rparr> \<in> set rej" by simp
  show "tx\<lparr>message := Some ''Duplicate transaction''\<rparr> \<notin> set rej"
  proof
    assume "tx\<lparr>message := Some ''Duplicate transaction''\<rparr> \<in> set rej"
    then have "tx\<lparr>message := Some ''Duplicate transaction''\<rparr>
        \<in> set (filter (\<lambda>t. amount t < 0) rej)"
      using tx(2) by simp
    then obtain t where
      "tx\<lparr>message := Some ''Duplicate transaction''\<rparr>
        = t\<lparr>message := Some ''Negative amounts are not allowed''\<rparr>"
      unfolding rej by auto
    then have "message (tx\<lparr>message := Some ''Duplicate transaction''\<rparr>)
        = message (t\<lparr>message := Some ''Negative amounts are not allowed''\<rparr>)"
      by simp
    then show False by simp
  qed
  show "tx \<notin> set acc"
  proof
    assume "tx \<in> set acc"
    then have "tx \<in> set (filter (\<lambda>t. amount t < 0) acc)" using tx(2) by simp
    then show False unfolding acc by simp
  qed
qed

lemma validate_transactions_negatives:
  "filter (\<lambda>t. amount t < 0) (invalid (validate_transactions payload))
     = map (\<lambda>t. t\<lparr>message := Some ''Negative amounts are not allowed''\<rparr>)
         (filter (\<lambda>t. amount t < 0) (v_transactions payload))"
  "filter (\<lambda>t. amount t < 0) (valid (validate_transactions payload)) = []"
proof -
  obtain v i where r: "validate_loop {} [] [] (v_transactions payload) = (v, i)"
    by (cases "validate_loop {} [] [] (v_transactions payload)")
  show "filter (\<lambda>t. amount t < 0) (invalid (validate_transactions payload))
     = map (\<lambda>t. t\<lparr>message := Some ''Negative amounts are not allowed''\<rparr>)
         (filter (\<lambda>t. amount t < 0) (v_transactions payload))"
    and "filter (\<lambda>t. amount t < 0) (valid (validate_transactions payload)) = []"
    using validate_loop_negatives [of "{}" "[]" "[]" "v_transactions payload"]
    by (simp_all add: validate_transactions_def r)
qed

lemma filter_transactions_negatives:
  assumes "filter_transactions parse_date payload = Inr resp"
  shows "filter (\<lambda>t. amount t < 0) (invalid resp)
     = map (\<lambda>t. t\<lparr>message := Some ''Negative amounts are not allowed''\<rparr>)
         (filter (\<lambda>t. amount t < 0) (f_transactions payload))"
    and "filter (\<lambda>t. amount t < 0) (valid resp) = []"
proof -
  from assms obtain parsed_q parsed_p parsed_k v i where
    loop: "filter_loop parse_date parsed_q parsed_p parsed_k {} [] [] (f_transactions payload)
        = Inr (v, i)"
    and resp: "resp = \<lparr>valid = v, invalid = i\<rparr>"
    by (auto simp: filter_transactions_def split: sum.splits prod.splits)
  from filter_loop_negatives [OF loop]
  show "filter (\<lambda>t. amount t < 0) (invalid resp)
     = map (\<lambda>t. t\<lparr>message := Some ''Negative amounts are not allowed''\<rparr>)
         (filter (\<lambda>t. amount t < 0) (f_transactions payload))"
    and "filter (\<lambda>t. amount t < 0) (valid resp) = []"
    by (simp_all add: resp)
qed

text \<open>
  C3. Negativity is checked before duplication, in the validator and in the filter: the
  invalid entries with a negative amount are exactly the negative input transactions, in
  input order, each with the message \<open>Negative amounts are not allowed\<close>. So a transaction
  with a negative amount (whether or not its date is the date of an earlier accepted
  transaction) is rejected with that message, is never rejected with the message
  \<open>Duplicate transaction\<close>, and is never accepted.
\<close>

theorem negative_before_duplicate:
  "filter (\<lambda>t. amount t < 0) (invalid (validate_transactions payload))
     = map (\<lambda>t. t\<lparr>message := Some ''Negative amounts are not allowed''\<rparr>)
         (filter (\<lambda>t. amount t < 0) (v_transactions payload))
   \<and> (tx \<in> set (v_transactions payload) \<and> amount tx < 0 \<longrightarrow>
        tx\<lparr>message := Some ''Negative amounts are not allowed''\<rparr>
          \<in> set (invalid (validate_transactions payload))
        \<and> tx\<lparr>message := Some ''Duplicate transaction''\<rparr>
          \<notin> set (invalid (validate_transactions payload))
        \<and> tx \<notin> set (valid (validate_transactions payload)))
   \<and> (filter_transactions parse_date fpayload = Inr resp \<longrightarrow>
        filter (\<lambda>t. amount t < 0) (invalid resp)
          = map (\<lambda>t. t\<lparr>message := Some ''Negative amounts are not allowed''\<rparr>)
              (filter (\<lambda>t. amount t < 0) (f_transactions fpayload))
        \<and> (tx \<in> set (f_transactions fpayload) \<and> amount tx < 0 \<longrightarrow>
             tx\<lparr>message := Some ''Negative amounts are not allowed''\<rparr> \<in> set (invalid resp)
             \<and> tx\<lparr>message := Some ''Duplicate transaction''\<rparr> \<notin> set (invalid resp)
             \<and> tx \<notin> set (valid resp)))"
proof (intro conjI impI)
  show "filter (\<lambda>t. amount t < 0) (invalid (validate_transactions payload))
     = map (\<lambda>t. t\<lparr>message := Some ''Negative amounts are not allowed''\<rparr>)
         (filter (\<lambda>t. amount t < 0) (v_transactions payload))"
    by (rule validate_transactions_negatives)
next
  assume h: "tx \<in> set (v_transactions payload) \<and> amount tx < 0"
  note c = negatives_classified [OF validate_transactions_negatives [of payload]]
  show "tx\<lparr>message := Some ''Negative amounts are not allowed''\<rparr>
          \<in> set (invalid (validate_transactions payload))"
    using h by (intro c(1)) simp_all
  show "tx\<lparr>message := Some ''Duplicate transaction''\<rparr>
          \<notin> set (invalid (validate_transactions payload))"
    using h by (intro c(2)) simp_all
  show "tx \<notin> set (valid (validate_transactions payload))"
    using h by (intro c(3)) simp_all
next
  assume r: "filter_transactions parse_date fpayload = Inr resp"
  show "filter (\<lambda>t. amount t < 0) (invalid resp)
          = map (\<lambda>t. t\<lparr>message := Some ''Negative amounts are not allowed''\<rparr>)
              (filter (\<lambda>t. amount t < 0) (f_transactions fpayload))"
    by (rule filter_transactions_negatives(1) [OF r])
next
  assume r: "filter_transactions parse_date fpayload = Inr resp"
    and h: "tx \<in> set (f_transactions fpayload) \<and> amount tx < 0"
  note c = negatives_classified [OF filter_transactions_negatives [OF r]]
  show "tx\<lparr>message := Some ''Negative amounts are not allowed''\<rparr> \<in> set (invalid resp)"
    using h by (intro c(1)) simp_all
  show "tx\<lparr>message := Some ''Duplicate transaction''\<rparr> \<notin> set (invalid resp)"
    using h by (intro c(2)) simp_all
  show "tx \<notin> set (valid resp)"
    using h by (intro c(3)) simp_all
qed

theorem negative_before_duplicate_witness:
  "amount \<lparr>date = ''2023-01-01 10:00:00'', amount = - 10, ceiling_d = 0, remanent = 0, inkPeriod = None, message = None\<rparr> < 0
   \<and> date \<lparr>date = ''2023-01-01 10:00:00'', amount = - 10, ceiling_d = 0, remanent = 0, inkPeriod = None, message = None\<rparr>
       = date \<lparr>date = ''2023-01-01 10:00:00'', amount = 50, ceiling_d = 100, remanent = 50, inkPeriod = None, message = None\<rparr>
   \<and> validate_transactions
        \<lparr>v_wage = 50000, v_transactions = [\<lparr>date = ''2023-01-01 10:00:00'', amount = 50, ceiling_d = 100, remanent = 50, inkPeriod = None, message = None\<rparr>,
        \<lparr>date = ''2023-01-01 10:00:00'', amount = - 10, ceiling_d = 0, remanent = 0, inkPeriod = None, message = None\<rparr>]\<rparr>
       = \<lparr>valid = [\<lparr>date = ''2023-01-01 10:00:00'', amount = 50, ceiling_d = 100, remanent = 50, inkPeriod = None, message = None\<rparr>],
          invalid = [\<lparr>date = ''2023-01-01 10:00:00'', amount = - 10, ceiling_d = 0, remanent = 0, inkPeriod = None, message = Some ''Negative amounts are not allowed''\<rparr>]\<rparr>
   \<and> \<lparr>date = ''2023-01-01 10:00:00'', amount = - 10, ceiling_d = 0, remanent = 0, inkPeriod = None, message = Some ''Duplicate transaction''\<rparr>
       \<notin> set (invalid (validate_transactions
        \<lparr>v_wage = 50000, v_transactions = [\<lparr>date = ''2023-01-01 10:00:00'', amount = 50, ceiling_d = 100, remanent = 50, inkPeriod = None, message = None\<rparr>,
        \<lparr>date = ''2023-01-01 10:00:00'', amount = - 10, ceiling_d = 0, remanent = 0, inkPeriod = None, message = None\<rparr>]\<rparr>))
   \<and> filter_transactions (\<lambda>s. Inr (length s))
        \<lparr>f_q = [], f_p = [], f_k = [], f_wage = 50000, f_transactions = [\<lparr>date = ''2023-01-01 10:00:00'', amount = 50, ceiling_d = 100, remanent = 50, inkPeriod = None, message = None\<rparr>,
        \<lparr>date = ''2023-01-01 10:00:00'', amount = - 10, ceiling_d = 0, remanent = 0, inkPeriod = None, message = None\<rparr>]\<rparr>
       = Inr \<lparr>valid = [\<lparr>date = ''2023-01-01 10:00:00'', amount = 50, ceiling_d = 100, remanent = 50, inkPeriod = Some False, message = None\<rparr>],
        invalid = [\<lparr>date = ''2023-01-01 10:00:00'', amount = - 10, ceiling_d = 0, remanent = 0, inkPeriod = None, message = Some ''Negative amounts are not allowed''\<rparr>]\<rparr>
   \<and> \<lparr>date = ''2023-01-01 10:00:00'', amount = - 10, ceiling_d = 0, remanent = 0, inkPeriod = None, message = Some ''Duplicate transaction''\<rparr>
       \<notin> set (invalid \<lparr>valid = [\<lparr>date = ''2023-01-01 10:00:00'', amount = 50, ceiling_d = 100, remanent = 50, inkPeriod = Some False, message = None\<rparr>],
        invalid = [\<lparr>date = ''2023-01-01 10:00:00'', amount = - 10, ceiling_d = 0, remanent = 0, inkPeriod = None, message = Some ''Negative amounts are not allowed''\<rparr>]\<rparr>)"
proof -
  define T1 where "T1 = \<lparr>date = ''2023-01-01 10:00:00'', amount = 50, ceiling_d = 100, remanent = 50, inkPeriod = None, message = None\<rparr>"
  define T2 where "T2 = \<lparr>date = ''2023-01-01 10:00:00'', amount = - 10, ceiling_d = 0, remanent = 0, inkPeriod = None, message = None\<rparr>"
  define P where "P = \<lparr>v_wage = 50000, v_transactions = [T1, T2]\<rparr>"
  define FP where "FP = \<lparr>f_q = [], f_p = [], f_k = [], f_wage = 50000, f_transactions = [T1, T2]\<rparr>"
  define PD :: "string \<Rightarrow> error + nat" where "PD = (\<lambda>s. Inr (length s))"
  define RESP where "RESP = \<lparr>valid = [T1\<lparr>inkPeriod := Some False\<rparr>],
      invalid = [T2\<lparr>message := Some ''Negative amounts are not allowed''\<rparr>]\<rparr>"
  have neg: "amount T2 < 0" and same: "date T2 = date T1" by (simp_all add: T1_def T2_def)
  have h: "T2 \<in> set (v_transactions P) \<and> amount T2 < 0"
    and hf: "T2 \<in> set (f_transactions FP) \<and> amount T2 < 0"
    using neg by (simp_all add: P_def FP_def)
  have v: "validate_transactions P
      = \<lparr>valid = [T1], invalid = [T2\<lparr>message := Some ''Negative amounts are not allowed''\<rparr>]\<rparr>"
    by (simp add: validate_transactions_def P_def T1_def T2_def)
  have f: "filter_transactions PD FP = Inr RESP"
    by (simp add: filter_transactions_def FP_def PD_def RESP_def T1_def T2_def enumerate_eq_zip
        process_transaction_rules_fast_def)
  from negative_before_duplicate [of P T2 PD FP RESP] h hf f
  have "T2\<lparr>message := Some ''Duplicate transaction''\<rparr> \<notin> set (invalid (validate_transactions P))"
    and "T2\<lparr>message := Some ''Duplicate transaction''\<rparr> \<notin> set (invalid RESP)"
    by blast+
  with neg same v f
  have "amount T2 < 0 \<and> date T2 = date T1
      \<and> validate_transactions P
          = \<lparr>valid = [T1], invalid = [T2\<lparr>message := Some ''Negative amounts are not allowed''\<rparr>]\<rparr>
      \<and> T2\<lparr>message := Some ''Duplicate transaction''\<rparr> \<notin> set (invalid (validate_transactions P))
      \<and> filter_transactions PD FP = Inr RESP
      \<and> T2\<lparr>message := Some ''Duplicate transaction''\<rparr> \<notin> set (invalid RESP)"
    by (intro conjI)
  then show ?thesis
    unfolding RESP_def P_def FP_def PD_def T1_def T2_def by simp
qed

section \<open>Rejected negative amounts leave the seen dates alone\<close>

lemma validate_loop_keeps:
  "set v \<subseteq> set (fst (validate_loop seen v i txs))"
proof (induction txs arbitrary: seen v i)
  case Nil
  show ?case by simp
next
  case (Cons tx txs)
  have "set v \<subseteq> set (v @ [tx])" by auto
  also have "\<dots> \<subseteq> set (fst (validate_loop (insert (date tx) seen) (v @ [tx]) i txs))"
    by (rule Cons.IH)
  finally show ?case using Cons.IH by simp
qed

lemma validate_loop_accepts:
  assumes "0 \<le> amount tx" "date tx \<notin> seen"
    and "\<forall>x\<in>set pre. date x = date tx \<longrightarrow> amount x < 0"
  shows "tx \<in> set (fst (validate_loop seen v i (pre @ tx # post)))"
  using assms
proof (induction pre arbitrary: seen v i)
  case Nil
  have "tx \<in> set (v @ [tx])" by simp
  then have "tx \<in> set (fst (validate_loop (insert (date tx) seen) (v @ [tx]) i post))"
    using validate_loop_keeps by blast
  then show ?case using Nil.prems by simp
next
  case (Cons x pre)
  have rest: "\<forall>y\<in>set pre. date y = date tx \<longrightarrow> amount y < 0" using Cons.prems(3) by simp
  show ?case
  proof (cases "amount x < 0 \<or> date x \<in> seen")
    case True
    then show ?thesis using Cons.IH [OF Cons.prems(1,2) rest] by auto
  next
    case False
    then have "date x \<noteq> date tx" using Cons.prems(3) by auto
    then have "date tx \<notin> insert (date x) seen" using Cons.prems(2) by simp
    from Cons.IH [OF Cons.prems(1) this rest] show ?thesis using False by simp
  qed
qed

lemma validate_loop_drop_negatives:
  "fst (validate_loop seen v i (filter (\<lambda>t. 0 \<le> amount t) txs))
     = fst (validate_loop seen v i' txs)"
proof (induction txs arbitrary: seen v i i')
  case Nil
  show ?case by simp
next
  case (Cons tx txs)
  show ?case
  proof (cases "amount tx < 0")
    case True
    then show ?thesis using Cons.IH by simp
  next
    case False
    then show ?thesis using Cons.IH by simp
  qed
qed

lemma filter_loop_keeps:
  "filter_loop parse_date parsed_q parsed_p parsed_k seen v i txs = Inr (v', i')
   \<Longrightarrow> set v \<subseteq> set v'"
proof (induction txs arbitrary: seen v i)
  case Nil
  then show ?case by simp
next
  case (Cons tx txs)
  show ?case
  proof (cases "amount tx < 0 \<or> date tx \<in> seen")
    case True
    then show ?thesis using Cons.prems Cons.IH by (auto split: if_splits)
  next
    case False
    then obtain tx_dt resolved where dt: "parse_date (date tx) = Inr tx_dt"
      and res: "process_transaction_rules_fast tx_dt (remanent tx) parsed_q parsed_p = Inr resolved"
      using Cons.prems by (auto split: sum.splits)
    from Cons.prems False dt res Cons.IH show ?thesis by force
  qed
qed

lemma filter_loop_accepts:
  assumes "filter_loop parse_date parsed_q parsed_p parsed_k seen v i (pre @ tx # post)
      = Inr (v', i')"
    and "0 \<le> amount tx" "date tx \<notin> seen"
    and "\<forall>x\<in>set pre. date x = date tx \<longrightarrow> amount x < 0"
  shows "\<exists>tx_dt resolved. parse_date (date tx) = Inr tx_dt
      \<and> process_transaction_rules_fast tx_dt (remanent tx) parsed_q parsed_p = Inr resolved
      \<and> tx\<lparr>remanent := resolved,
             inkPeriod := Some (list_ex (\<lambda>(k_start, k_end). k_start \<le> tx_dt \<and> tx_dt \<le> k_end)
                                  parsed_k)\<rparr>
          \<in> set v'"
  using assms
proof (induction pre arbitrary: seen v i)
  case Nil
  from Nil.prems obtain tx_dt resolved where dt: "parse_date (date tx) = Inr tx_dt"
    and res: "process_transaction_rules_fast tx_dt (remanent tx) parsed_q parsed_p = Inr resolved"
    by (auto split: sum.splits)
  define tx' where "tx' = tx\<lparr>remanent := resolved,
             inkPeriod := Some (list_ex (\<lambda>(k_start, k_end). k_start \<le> tx_dt \<and> tx_dt \<le> k_end)
                                  parsed_k)\<rparr>"
  have "filter_loop parse_date parsed_q parsed_p parsed_k (insert (date tx) seen) (v @ [tx']) i post
      = Inr (v', i')"
    using Nil.prems dt res by (simp add: tx'_def)
  from filter_loop_keeps [OF this] have "tx' \<in> set v'" by simp
  with dt res show ?case unfolding tx'_def by blast
next
  case (Cons x pre)
  have rest: "\<forall>y\<in>set pre. date y = date tx \<longrightarrow> amount y < 0" using Cons.prems(4) by simp
  show ?case
  proof (cases "amount x < 0")
    case True
    with Cons.prems(1) have
      "filter_loop parse_date parsed_q parsed_p parsed_k seen v
         (i @ [x\<lparr>message := Some ''Negative amounts are not allowed''\<rparr>]) (pre @ tx # post)
       = Inr (v', i')" by simp
    from Cons.IH [OF this Cons.prems(2,3) rest] show ?thesis .
  next
    case nonneg: False
    show ?thesis
    proof (cases "date x \<in> seen")
      case True
      with nonneg Cons.prems(1) have
        "filter_loop parse_date parsed_q parsed_p parsed_k seen v
           (i @ [x\<lparr>message := Some ''Duplicate transaction''\<rparr>]) (pre @ tx # post)
         = Inr (v', i')" by simp
      from Cons.IH [OF this Cons.prems(2,3) rest] show ?thesis .
    next
      case False
      from nonneg have "date x \<noteq> date tx" using Cons.prems(4) by auto
      then have fresh: "date tx \<notin> insert (date x) seen" using Cons.prems(3) by simp
      from nonneg False Cons.prems(1) obtain x_dt x_res where "parse_date (date x) = Inr x_dt"
        and "process_transaction_rules_fast x_dt (remanent x) parsed_q parsed_p = Inr x_res"
        by (auto split: sum.splits)
      with nonneg False Cons.prems(1) obtain va where
        "filter_loop parse_date parsed_q parsed_p parsed_k (insert (date x) seen) va i
           (pre @ tx # post) = Inr (v', i')" by simp
      from Cons.IH [OF this Cons.prems(2) fresh rest] show ?thesis .
    qed
  qed
qed

lemma filter_loop_drop_negatives:
  "map_sum id fst
     (filter_loop parse_date parsed_q parsed_p parsed_k seen v i (filter (\<lambda>t. 0 \<le> amount t) txs))
   = map_sum id fst (filter_loop parse_date parsed_q parsed_p parsed_k seen v i' txs)"
proof (induction txs arbitrary: seen v i i')
  case Nil
  show ?case by simp
next
  case (Cons tx txs)
  show ?case
  proof (cases "amount tx < 0")
    case True
    then show ?thesis using Cons.IH by simp
  next
    case False
    then show ?thesis using Cons.IH by (simp split: sum.splits)
  qed
qed

lemma returns_loop_drop_negatives:
  "returns_loop parse_date parsed_q parsed_p seen valid_txs total_tx_amount total_ceiling
     (filter (\<lambda>t. 0 \<le> amount t) txs)
   = returns_loop parse_date parsed_q parsed_p seen valid_txs total_tx_amount total_ceiling txs"
proof (induction txs arbitrary: seen valid_txs total_tx_amount total_ceiling)
  case Nil
  show ?case by simp
next
  case (Cons tx txs)
  show ?case
  proof (cases "amount tx < 0")
    case True
    then show ?thesis using Cons.IH by simp
  next
    case False
    then show ?thesis using Cons.IH by (simp split: sum.splits option.splits)
  qed
qed

lemma returns_loop_keeps:
  "returns_loop parse_date parsed_q parsed_p seen valid_txs ta tc txs = Inr (valid_txs', ta', tc')
   \<Longrightarrow> set valid_txs \<subseteq> set valid_txs'"
proof (induction txs arbitrary: seen valid_txs ta tc)
  case Nil
  then show ?case by simp
next
  case (Cons tx txs)
  show ?case
  proof (cases "0 \<le> amount tx \<and> date tx \<notin> seen")
    case False
    then show ?thesis using Cons.prems Cons.IH by (auto split: if_splits)
  next
    case True
    then obtain tx_dt resolved a c where dt: "parse_date (date tx) = Inr tx_dt"
      and res: "process_transaction_rules_fast tx_dt (remanent tx) parsed_q parsed_p = Inr resolved"
      and a: "dec_add ta (amount tx) = Some a"
      and c: "dec_add tc (ceiling_d tx) = Some c"
      using Cons.prems by (auto split: sum.splits option.splits)
    from Cons.prems True dt res a c Cons.IH show ?thesis by force
  qed
qed

lemma returns_loop_accepts:
  assumes "returns_loop parse_date parsed_q parsed_p seen valid_txs ta tc (pre @ tx # post)
      = Inr (valid_txs', ta', tc')"
    and "0 \<le> amount tx" "date tx \<notin> seen"
    and "\<forall>x\<in>set pre. date x = date tx \<longrightarrow> amount x < 0"
  shows "\<exists>tx_dt resolved. parse_date (date tx) = Inr tx_dt
      \<and> process_transaction_rules_fast tx_dt (remanent tx) parsed_q parsed_p = Inr resolved
      \<and> (tx_dt, resolved) \<in> set valid_txs'"
  using assms
proof (induction pre arbitrary: seen valid_txs ta tc)
  case Nil
  from Nil.prems obtain tx_dt resolved a c where dt: "parse_date (date tx) = Inr tx_dt"
    and res: "process_transaction_rules_fast tx_dt (remanent tx) parsed_q parsed_p = Inr resolved"
    and a: "dec_add ta (amount tx) = Some a"
    and c: "dec_add tc (ceiling_d tx) = Some c"
    by (auto split: sum.splits option.splits)
  have "returns_loop parse_date parsed_q parsed_p (insert (date tx) seen)
      (valid_txs @ [(tx_dt, resolved)]) a c post = Inr (valid_txs', ta', tc')"
    using Nil.prems dt res a c by simp
  from returns_loop_keeps [OF this]
  have "(tx_dt, resolved) \<in> set valid_txs'" by simp
  with dt res show ?case by blast
next
  case (Cons x pre)
  have rest: "\<forall>y\<in>set pre. date y = date tx \<longrightarrow> amount y < 0" using Cons.prems(4) by simp
  show ?case
  proof (cases "0 \<le> amount x \<and> date x \<notin> seen")
    case False
    with Cons.prems(1) have
      "returns_loop parse_date parsed_q parsed_p seen valid_txs ta tc (pre @ tx # post)
       = Inr (valid_txs', ta', tc')" by auto
    from Cons.IH [OF this Cons.prems(2,3) rest] show ?thesis .
  next
    case True
    then have "date x \<noteq> date tx" using Cons.prems(4) by auto
    then have fresh: "date tx \<notin> insert (date x) seen" using Cons.prems(3) by simp
    from True Cons.prems(1) obtain x_dt x_res x_a x_c where "parse_date (date x) = Inr x_dt"
      and "process_transaction_rules_fast x_dt (remanent x) parsed_q parsed_p = Inr x_res"
      and "dec_add ta (amount x) = Some x_a"
      and "dec_add tc (ceiling_d x) = Some x_c"
      by (auto split: sum.splits option.splits)
    with True Cons.prems(1) obtain va a c where
      "returns_loop parse_date parsed_q parsed_p (insert (date x) seen) va a c
         (pre @ tx # post) = Inr (valid_txs', ta', tc')" by simp
    from Cons.IH [OF this Cons.prems(2) fresh rest] show ?thesis .
  qed
qed

lemma ctx_fix_50: "ctx_fix 50 = Some 50"
  by code_simp

lemma ctx_fix_100: "ctx_fix 100 = Some 100"
  by code_simp

lemma valid_validate_transactions:
  "valid (validate_transactions payload) = fst (validate_loop {} [] [] (v_transactions payload))"
  by (simp add: validate_transactions_def split: prod.splits)

lemma valid_filter_transactions:
  "map_sum id valid (filter_transactions parse_date payload)
   = (case parse_q_rules parse_date (enumerate 0 (f_q payload)) of
        Inl e \<Rightarrow> Inl e
      | Inr parsed_q \<Rightarrow>
          (case parse_p_rules parse_date (f_p payload) of
             Inl e \<Rightarrow> Inl e
           | Inr parsed_p \<Rightarrow>
               (case parse_k_rules parse_date (f_k payload) of
                  Inl e \<Rightarrow> Inl e
                | Inr parsed_k \<Rightarrow>
                    map_sum id fst
                      (filter_loop parse_date parsed_q parsed_p
                         (map (\<lambda>(s, en, _, _). (s, en)) parsed_k) {} [] []
                         (f_transactions payload)))))"
  by (simp add: filter_transactions_def split: sum.splits prod.splits)

lemma filter_transactions_drop_negatives:
  "map_sum id valid
     (filter_transactions parse_date
        (payload\<lparr>f_transactions := filter (\<lambda>t. 0 \<le> amount t) (f_transactions payload)\<rparr>))
   = map_sum id valid (filter_transactions parse_date payload)"
  unfolding valid_filter_transactions
  by (simp add: filter_loop_drop_negatives [where i' = "[]"] split: sum.splits)

lemma calculate_returns_drop_negatives:
  "calculate_returns parse_date float_real_value
     (payload\<lparr>r_transactions := filter (\<lambda>t. 0 \<le> amount t) (r_transactions payload)\<rparr>) rate is_nps
   = calculate_returns parse_date float_real_value payload rate is_nps"
  by (simp add: calculate_returns_def returns_loop_drop_negatives Let_def
      split: sum.splits option.splits prod.splits)

lemma filter_transactions_accepts:
  assumes "filter_transactions parse_date payload = Inr resp"
    and "f_transactions payload = pre @ tx # post"
    and "0 \<le> amount tx" "\<forall>x\<in>set pre. date x = date tx \<longrightarrow> amount x < 0"
  shows "\<exists>r k. tx\<lparr>remanent := r, inkPeriod := k\<rparr> \<in> set (valid resp)"
proof -
  from assms(1) obtain parsed_q parsed_p parsed_k v i where
    loop: "filter_loop parse_date parsed_q parsed_p parsed_k {} [] [] (f_transactions payload)
        = Inr (v, i)"
    and resp: "resp = \<lparr>valid = v, invalid = i\<rparr>"
    by (auto simp: filter_transactions_def split: sum.splits prod.splits)
  from filter_loop_accepts [OF loop [unfolded assms(2)] assms(3) _ assms(4)]
  show ?thesis unfolding resp by auto
qed

text \<open>
  C10. A transaction rejected for a negative amount does not mark its date as seen, in
  the validator, the filter and the returns orchestrator: only accepted transactions add
  their date. Taking the transactions with a negative amount out of the input changes
  nothing in what is accepted (the valid list of the validator and of the filter, or
  their error, and the whole result of \<^verbatim>\<open>calculate_returns\<close>). And a transaction with a
  non-negative amount is accepted when every earlier transaction with its date has a
  negative amount: it is in the validator's valid list, in the filter's valid list (with
  its resolved \<^verbatim>\<open>remanent\<close> and \<^verbatim>\<open>inkPeriod\<close>) and in \<^verbatim>\<open>valid_txs\<close> of the returns loop.
\<close>

theorem negative_does_not_mark_seen:
  "valid (validate_transactions
       (payload\<lparr>v_transactions := filter (\<lambda>t. 0 \<le> amount t) (v_transactions payload)\<rparr>))
     = valid (validate_transactions payload)
   \<and> map_sum id valid
       (filter_transactions parse_date
          (fpayload\<lparr>f_transactions := filter (\<lambda>t. 0 \<le> amount t) (f_transactions fpayload)\<rparr>))
     = map_sum id valid (filter_transactions parse_date fpayload)
   \<and> calculate_returns parse_date float_real_value
       (rpayload\<lparr>r_transactions := filter (\<lambda>t. 0 \<le> amount t) (r_transactions rpayload)\<rparr>)
       rate is_nps
     = calculate_returns parse_date float_real_value rpayload rate is_nps
   \<and> (0 \<le> amount tx \<and> (\<forall>x\<in>set pre. date x = date tx \<longrightarrow> amount x < 0) \<longrightarrow>
        (v_transactions payload = pre @ tx # post \<longrightarrow>
           tx \<in> set (valid (validate_transactions payload)))
        \<and> (f_transactions fpayload = pre @ tx # post
             \<and> filter_transactions parse_date fpayload = Inr resp \<longrightarrow>
             (\<exists>r k. tx\<lparr>remanent := r, inkPeriod := k\<rparr> \<in> set (valid resp)))
        \<and> (returns_loop parse_date parsed_q parsed_p {} [] 0 0 (pre @ tx # post)
               = Inr (valid_txs, total_tx_amount, total_ceiling) \<longrightarrow>
             (\<exists>tx_dt resolved. parse_date (date tx) = Inr tx_dt
                \<and> process_transaction_rules_fast tx_dt (remanent tx) parsed_q parsed_p
                    = Inr resolved
                \<and> (tx_dt, resolved) \<in> set valid_txs)))"
proof (intro conjI impI)
  show "valid (validate_transactions
       (payload\<lparr>v_transactions := filter (\<lambda>t. 0 \<le> amount t) (v_transactions payload)\<rparr>))
     = valid (validate_transactions payload)"
    by (simp add: valid_validate_transactions validate_loop_drop_negatives [where i' = "[]"])
  show "map_sum id valid
       (filter_transactions parse_date
          (fpayload\<lparr>f_transactions := filter (\<lambda>t. 0 \<le> amount t) (f_transactions fpayload)\<rparr>))
     = map_sum id valid (filter_transactions parse_date fpayload)"
    by (rule filter_transactions_drop_negatives)
  show "calculate_returns parse_date float_real_value
       (rpayload\<lparr>r_transactions := filter (\<lambda>t. 0 \<le> amount t) (r_transactions rpayload)\<rparr>)
       rate is_nps
     = calculate_returns parse_date float_real_value rpayload rate is_nps"
    by (rule calculate_returns_drop_negatives)
next
  assume h: "0 \<le> amount tx \<and> (\<forall>x\<in>set pre. date x = date tx \<longrightarrow> amount x < 0)"
    and txs: "v_transactions payload = pre @ tx # post"
  show "tx \<in> set (valid (validate_transactions payload))"
    unfolding valid_validate_transactions txs
    using h by (intro validate_loop_accepts) simp_all
next
  assume h: "0 \<le> amount tx \<and> (\<forall>x\<in>set pre. date x = date tx \<longrightarrow> amount x < 0)"
    and f: "f_transactions fpayload = pre @ tx # post
             \<and> filter_transactions parse_date fpayload = Inr resp"
  show "\<exists>r k. tx\<lparr>remanent := r, inkPeriod := k\<rparr> \<in> set (valid resp)"
    using h f by (intro filter_transactions_accepts [of parse_date fpayload resp pre tx post]) simp_all
next
  assume h: "0 \<le> amount tx \<and> (\<forall>x\<in>set pre. date x = date tx \<longrightarrow> amount x < 0)"
    and r: "returns_loop parse_date parsed_q parsed_p {} [] 0 0 (pre @ tx # post)
               = Inr (valid_txs, total_tx_amount, total_ceiling)"
  show "\<exists>tx_dt resolved. parse_date (date tx) = Inr tx_dt
                \<and> process_transaction_rules_fast tx_dt (remanent tx) parsed_q parsed_p
                    = Inr resolved
                \<and> (tx_dt, resolved) \<in> set valid_txs"
    using h by (intro returns_loop_accepts [OF r]) simp_all
qed

theorem negative_does_not_mark_seen_witness:
  "amount \<lparr>date = ''2023-01-01 10:00:00'', amount = - 10, ceiling_d = 0, remanent = 0, inkPeriod = None, message = None\<rparr> < 0
   \<and> date \<lparr>date = ''2023-01-01 10:00:00'', amount = - 10, ceiling_d = 0, remanent = 0, inkPeriod = None, message = None\<rparr>
       = date \<lparr>date = ''2023-01-01 10:00:00'', amount = 50, ceiling_d = 100, remanent = 50, inkPeriod = None, message = None\<rparr>
   \<and> 0 \<le> amount \<lparr>date = ''2023-01-01 10:00:00'', amount = 50, ceiling_d = 100, remanent = 50, inkPeriod = None, message = None\<rparr>
   \<and> \<lparr>date = ''2023-01-01 10:00:00'', amount = 50, ceiling_d = 100, remanent = 50, inkPeriod = None, message = None\<rparr>
       \<in> set (valid (validate_transactions
          \<lparr>v_wage = 50000, v_transactions = [\<lparr>date = ''2023-01-01 10:00:00'', amount = - 10, ceiling_d = 0, remanent = 0, inkPeriod = None, message = None\<rparr>,
          \<lparr>date = ''2023-01-01 10:00:00'', amount = 50, ceiling_d = 100, remanent = 50, inkPeriod = None, message = None\<rparr>]\<rparr>))
   \<and> filter_transactions (\<lambda>s. Inr (length s))
          \<lparr>f_q = [], f_p = [], f_k = [], f_wage = 50000, f_transactions = [\<lparr>date = ''2023-01-01 10:00:00'', amount = - 10, ceiling_d = 0, remanent = 0, inkPeriod = None, message = None\<rparr>,
          \<lparr>date = ''2023-01-01 10:00:00'', amount = 50, ceiling_d = 100, remanent = 50, inkPeriod = None, message = None\<rparr>]\<rparr>
       = Inr \<lparr>valid = [\<lparr>date = ''2023-01-01 10:00:00'', amount = 50, ceiling_d = 100, remanent = 50, inkPeriod = Some False, message = None\<rparr>],
          invalid = [\<lparr>date = ''2023-01-01 10:00:00'', amount = - 10, ceiling_d = 0, remanent = 0, inkPeriod = None, message = Some ''Negative amounts are not allowed''\<rparr>]\<rparr>
   \<and> (\<exists>r k. \<lparr>date = ''2023-01-01 10:00:00'', amount = 50, ceiling_d = 100, remanent = 50, inkPeriod = None, message = None\<rparr>\<lparr>remanent := r, inkPeriod := k\<rparr>
         \<in> set (valid \<lparr>valid = [\<lparr>date = ''2023-01-01 10:00:00'', amount = 50, ceiling_d = 100, remanent = 50, inkPeriod = Some False, message = None\<rparr>],
          invalid = [\<lparr>date = ''2023-01-01 10:00:00'', amount = - 10, ceiling_d = 0, remanent = 0, inkPeriod = None, message = Some ''Negative amounts are not allowed''\<rparr>]\<rparr>))
   \<and> returns_loop (\<lambda>s. Inr (length s)) ([] :: (nat \<times> nat \<times> rat \<times> nat) list) [] {} [] 0 0
         [\<lparr>date = ''2023-01-01 10:00:00'', amount = - 10, ceiling_d = 0, remanent = 0, inkPeriod = None, message = None\<rparr>,
          \<lparr>date = ''2023-01-01 10:00:00'', amount = 50, ceiling_d = 100, remanent = 50, inkPeriod = None, message = None\<rparr>]
       = Inr ([(19, 50)], 50, 100)
   \<and> (\<exists>tx_dt resolved. (\<lambda>s. Inr (length s)) ''2023-01-01 10:00:00'' = Inr tx_dt
         \<and> process_transaction_rules_fast tx_dt 50 [] [] = Inr resolved
         \<and> (tx_dt, resolved) \<in> set [(19::nat, 50)])"
proof -
  define N where "N = \<lparr>date = ''2023-01-01 10:00:00'', amount = - 10, ceiling_d = 0, remanent = 0, inkPeriod = None, message = None\<rparr>"
  define T where "T = \<lparr>date = ''2023-01-01 10:00:00'', amount = 50, ceiling_d = 100, remanent = 50, inkPeriod = None, message = None\<rparr>"
  define P where "P = \<lparr>v_wage = 50000, v_transactions = [N, T]\<rparr>"
  define FP where "FP = \<lparr>f_q = [], f_p = [], f_k = [], f_wage = 50000, f_transactions = [N, T]\<rparr>"
  define PD :: "string \<Rightarrow> error + nat" where "PD = (\<lambda>s. Inr (length s))"
  define RESP where "RESP = \<lparr>valid = [T\<lparr>inkPeriod := Some False\<rparr>],
      invalid = [N\<lparr>message := Some ''Negative amounts are not allowed''\<rparr>]\<rparr>"
  have neg: "amount N < 0" and same: "date N = date T" and nonneg: "0 \<le> amount T"
    by (simp_all add: N_def T_def)
  have h: "0 \<le> amount T \<and> (\<forall>x\<in>set [N]. date x = date T \<longrightarrow> amount x < 0)"
    using neg nonneg by simp
  have txs: "v_transactions P = [N] @ T # []" and ftxs: "f_transactions FP = [N] @ T # []"
    by (simp_all add: P_def FP_def)
  have f: "filter_transactions PD FP = Inr RESP"
    by (simp add: filter_transactions_def FP_def PD_def RESP_def T_def N_def enumerate_eq_zip
        process_transaction_rules_fast_def)
  have r: "returns_loop PD ([] :: (nat \<times> nat \<times> rat \<times> nat) list) [] {} [] 0 0 ([N] @ T # [])
      = Inr ([(19, 50)], 50, 100)"
    by (simp add: PD_def T_def N_def process_transaction_rules_fast_def dec_add_def
        ctx_fix_50 ctx_fix_100)
  note inst = negative_does_not_mark_seen [where payload = P and parse_date = PD and fpayload = FP
      and tx = T and pre = "[N]" and post = "[]" and resp = RESP
      and parsed_q = "[]" and parsed_p = "[]" and valid_txs = "[(19, 50)]"
      and total_tx_amount = 50 and total_ceiling = 100]
  from inst h txs have a: "T \<in> set (valid (validate_transactions P))" by blast
  from inst h ftxs f have b: "\<exists>r k. T\<lparr>remanent := r, inkPeriod := k\<rparr> \<in> set (valid RESP)"
    by blast
  from inst h r have c: "\<exists>tx_dt resolved. PD (date T) = Inr tx_dt
      \<and> process_transaction_rules_fast tx_dt (remanent T) [] [] = Inr resolved
      \<and> (tx_dt, resolved) \<in> set [(19, 50)]"
    by blast
  from neg same nonneg a f b r c
  have "amount N < 0 \<and> date N = date T \<and> 0 \<le> amount T
      \<and> T \<in> set (valid (validate_transactions P))
      \<and> filter_transactions PD FP = Inr RESP
      \<and> (\<exists>r k. T\<lparr>remanent := r, inkPeriod := k\<rparr> \<in> set (valid RESP))
      \<and> returns_loop PD ([] :: (nat \<times> nat \<times> rat \<times> nat) list) [] {} [] 0 0 ([N] @ T # [])
          = Inr ([(19, 50)], 50, 100)
      \<and> (\<exists>tx_dt resolved. PD (date T) = Inr tx_dt
          \<and> process_transaction_rules_fast tx_dt (remanent T) [] [] = Inr resolved
          \<and> (tx_dt, resolved) \<in> set [(19, 50)])"
    by (intro conjI)
  then show ?thesis
    unfolding RESP_def P_def FP_def PD_def T_def N_def
    by (simp add: process_transaction_rules_fast_def dec_add_def ctx_fix_50 ctx_fix_100)
qed

end
